theory Spec2Isabelle
  imports Main "HOL-Library.AList"
begin

section \<open>JavaScript values\<close>

text \<open>
  The function declarations and the provider configuration are plain JavaScript objects
  read from a configuration file, and the code tests them with \<open>||\<close>, \<open>!\<close> and
  \<open>typeof\<close>, so the model keeps JavaScript's dynamic values. An object is the list of
  its own enumerable properties in the order \<open>Object.keys\<close> lists them, each key at
  most once. Numbers are the integers (no fractions, no \<open>NaN\<close>) of a magnitude that
  JavaScript prints in plain decimal digits, that is below \<open>1e21\<close>; a character is one
  byte; arrays have no holes.
\<close>

datatype jsval =
    JUndefined
  | JNull
  | JBool bool
  | JNum int
  | JStr string
  | JArr "jsval list"
  | JObj "(string \<times> jsval) list"

type_synonym jsobj = "(string \<times> jsval) list"

datatype js_error = Error string | TypeError

fun truthy :: "jsval \<Rightarrow> bool" where
  "truthy JUndefined = False"
| "truthy JNull = False"
| "truthy (JBool b) = b"
| "truthy (JNum n) = (n \<noteq> 0)"
| "truthy (JStr s) = (s \<noteq> [])"
| "truthy (JArr xs) = True"
| "truthy (JObj kvs) = True"

text \<open>\<open>a || b\<close>\<close>

definition js_or :: "jsval \<Rightarrow> jsval \<Rightarrow> jsval" where
  "js_or a b = (if truthy a then a else b)"

fun typeof :: "jsval \<Rightarrow> string" where
  "typeof JUndefined = ''undefined''"
| "typeof JNull = ''object''"
| "typeof (JBool b) = ''boolean''"
| "typeof (JNum n) = ''number''"
| "typeof (JStr s) = ''string''"
| "typeof (JArr xs) = ''object''"
| "typeof (JObj kvs) = ''object''"

fun nullish :: "jsval \<Rightarrow> bool" where
  "nullish JUndefined = True"
| "nullish JNull = True"
| "nullish v = False"

text \<open>Decimal digits of a number, as the template literals print it.\<close>

fun string_of_nat :: "nat \<Rightarrow> string" where
  "string_of_nat n =
     (if n < 10 then [char_of (48 + n)]
      else string_of_nat (n div 10) @ [char_of (48 + n mod 10)])"

definition string_of_int :: "int \<Rightarrow> string" where
  "string_of_int i = (if i < 0 then CHR ''-'' # string_of_nat (nat (- i)) else string_of_nat (nat i))"

fun join :: "string \<Rightarrow> string list \<Rightarrow> string" where
  "join sep [] = []"
| "join sep [x] = x"
| "join sep (x # y # ys) = x @ sep @ join sep (y # ys)"

text \<open>\<open>String(v)\<close>, which a template literal \<open>`${v}`\<close> and \<open>RegExp.test\<close> apply.\<close>

fun js_to_string :: "jsval \<Rightarrow> string" where
  "js_to_string JUndefined = ''undefined''"
| "js_to_string JNull = ''null''"
| "js_to_string (JBool b) = (if b then ''true'' else ''false'')"
| "js_to_string (JNum n) = string_of_int n"
| "js_to_string (JStr s) = s"
| "js_to_string (JArr xs) =
     join '','' (map (\<lambda>x. if nullish x then [] else js_to_string x) xs)"
| "js_to_string (JObj kvs) = ''[object Object]''"

text \<open>
  The own enumerable properties of a value: those of an object, and the indexed elements
  of an array or of a string.
\<close>

fun own_entries :: "jsval \<Rightarrow> jsobj" where
  "own_entries (JObj kvs) = kvs"
| "own_entries (JArr xs) = zip (map string_of_nat [0..<length xs]) xs"
| "own_entries (JStr s) = zip (map string_of_nat [0..<length s]) (map (\<lambda>c. JStr [c]) s)"
| "own_entries v = []"

text \<open>\<open>o.k\<close> on an object: the property, or \<open>undefined\<close>.\<close>

definition obj_prop :: "jsobj \<Rightarrow> string \<Rightarrow> jsval" where
  "obj_prop obj k = (case map_of obj k of None \<Rightarrow> JUndefined | Some v \<Rightarrow> v)"

text \<open>
  \<open>v.k\<close> on any value: a \<open>TypeError\<close> on \<open>undefined\<close> and \<open>null\<close>. (The keys
  read this way are never \<open>length\<close> or a method name.)
\<close>

definition js_get :: "jsval \<Rightarrow> string \<Rightarrow> js_error + jsval" where
  "js_get v k = (if nullish v then Inl TypeError else Inr (obj_prop (own_entries v) k))"

text \<open>\<open>Object.keys(v)\<close>\<close>

definition object_keys :: "jsval \<Rightarrow> js_error + string list" where
  "object_keys v = (if nullish v then Inl TypeError else Inr (map fst (own_entries v)))"

text \<open>\<open>xs[0]\<close> on the list of keys: \<open>undefined\<close> (None) when there is none.\<close>

definition first_key :: "string list \<Rightarrow> string option" where
  "first_key ks = (case ks of [] \<Rightarrow> None | k # _ \<Rightarrow> Some k)"

subsection \<open>lodash\<close>

text \<open>\<open>_.get(obj, 'k')\<close> with a single-segment path, on an object.\<close>

definition lodash_get :: "jsobj \<Rightarrow> string \<Rightarrow> jsval" where
  "lodash_get obj k = obj_prop obj k"

text \<open>
  \<open>_.size(v)\<close>: 0 for \<open>null\<close> and \<open>undefined\<close>; the length of a string or an array;
  for an object that is array-like, that is with a \<open>length\<close> property that is an integer
  from 0 to \<open>Number.MAX_SAFE_INTEGER\<close>, that length; for any other object the number of
  its own enumerable keys; 0 for a number or a boolean, which have no such keys.
\<close>

fun lodash_size :: "jsval \<Rightarrow> nat" where
  "lodash_size JUndefined = 0"
| "lodash_size JNull = 0"
| "lodash_size (JStr s) = length s"
| "lodash_size (JArr xs) = length xs"
| "lodash_size (JObj kvs) =
     (case map_of kvs ''length'' of
        Some (JNum n) \<Rightarrow> if 0 \<le> n \<and> n \<le> 9007199254740991 then nat n else length kvs
      | _ \<Rightarrow> length kvs)"
| "lodash_size v = 0"

text \<open>
  \<open>_.assign(target, source)\<close>: every own enumerable property of the source is written
  to the target, a new key after the keys already there. (JavaScript lists the keys that
  are array indices first, in numeric order; the model does not move them, so the key
  order of the result is JavaScript's only when no such key is added.)
\<close>

definition lodash_assign :: "jsobj \<Rightarrow> jsval \<Rightarrow> jsobj" where
  "lodash_assign target source =
     foldl (\<lambda>obj (k, v). AList.update k v obj) target (own_entries source)"

section \<open>The input and output of the compilation\<close>

text \<open>A resource of the deployment template.\<close>

record template =
  type :: string
  name :: jsval
  properties :: jsobj

text \<open>
  The part of \<open>this.serverless.service\<close> that \<open>compileFunctions\<close> reads and writes:
  the provider configuration, the package object, the declared functions in the order
  \<open>getAllFunctions()\<close> lists them (each with what \<open>getFunction\<close> returns for it),
  the array \<open>provider.compiledConfigurationTemplate.resources\<close>, and what was passed to
  \<open>serverless.cli.log\<close>.
\<close>

record service =
  provider :: jsobj
  package :: jsobj
  declared_functions :: "(string \<times> jsobj) list"
  resources :: "template list"
  cli_log :: "string list"

text \<open>
  What the module takes from elsewhere: \<open>validateEventsProperty\<close> of
  \<open>shared/validate\<close> (the message of the error it throws, or None when it returns),
  the provider's \<open>getRuntime\<close> and \<open>getConfiguredEnvironment\<close>, and \<open>path.sep\<close>.
\<close>

record collaborators =
  validateEventsProperty :: "jsobj \<Rightarrow> string \<Rightarrow> string option"
  getRuntime :: "jsobj \<Rightarrow> jsval"
  getConfiguredEnvironment :: "jsobj \<Rightarrow> jsval"
  path_sep :: char

section \<open>Validators\<close>

definition missingHandlerMessage :: "string \<Rightarrow> string" where
  "missingHandlerMessage functionName =
     ''Missing \"handler\" property for function \"'' @ functionName @ ''\".''
     @ '' Your function needs a \"handler\".''
     @ '' Please check the docs for more info.''"

definition validateHandlerProperty :: "jsobj \<Rightarrow> string \<Rightarrow> js_error option" where
  "validateHandlerProperty funcObject functionName =
     (if \<not> truthy (obj_prop funcObject ''handler'')
      then Some (Error (missingHandlerMessage functionName))
      else None)"

subsection \<open>The connector name pattern\<close>

text \<open>
  \<open>/projects\/[\s\S]*\/locations\/[\s\S]*\/connectors\/[\s\S]*/i\<close>: three literals
  in this order with anything between them, found anywhere in the string (the pattern has
  no anchors), letters compared without case.
\<close>

definition canonicalize :: "char \<Rightarrow> char" where
  "canonicalize c =
     (case map_of (zip ''abcdefghijklmnopqrstuvwxyz'' ''ABCDEFGHIJKLMNOPQRSTUVWXYZ'') c of
        None \<Rightarrow> c | Some u \<Rightarrow> u)"

fun starts_with_ci :: "string \<Rightarrow> string \<Rightarrow> bool" where
  "starts_with_ci [] s = True"
| "starts_with_ci (p # ps) [] = False"
| "starts_with_ci (p # ps) (c # cs) = (canonicalize p = canonicalize c \<and> starts_with_ci ps cs)"

text \<open>The rest of the string after the first place where the literal is found.\<close>

fun skip_literal :: "string \<Rightarrow> string \<Rightarrow> string option" where
  "skip_literal lit [] = (if starts_with_ci lit [] then Some [] else None)"
| "skip_literal lit (c # cs) =
     (if starts_with_ci lit (c # cs) then Some (drop (length lit) (c # cs))
      else skip_literal lit cs)"

definition vpcNamePattern_test :: "string \<Rightarrow> bool" where
  "vpcNamePattern_test s =
     (case skip_literal ''projects/'' s of
        None \<Rightarrow> False
      | Some r1 \<Rightarrow>
          (case skip_literal ''/locations/'' r1 of
             None \<Rightarrow> False
           | Some r2 \<Rightarrow>
               (case skip_literal ''/connectors/'' r2 of
                  None \<Rightarrow> False
                | Some r3 \<Rightarrow> True)))"

definition invalidVpcMessage :: "string \<Rightarrow> string" where
  "invalidVpcMessage functionName =
     ''The function \"'' @ functionName @ ''\" has invalid vpc connection name''
     @ '' VPC Connector name should follow projects/{project_id}/locations/{region}/connectors/{connector_name}''
     @ '' Please check the docs for more info.''"

definition validateVpcConnectorProperty :: "jsobj \<Rightarrow> string \<Rightarrow> js_error option" where
  "validateVpcConnectorProperty funcObject functionName =
     (if truthy (obj_prop funcObject ''vpc'') \<and> typeof (obj_prop funcObject ''vpc'') = ''string''
      then (if \<not> vpcNamePattern_test (js_to_string (obj_prop funcObject ''vpc''))
            then Some (Error (invalidVpcMessage functionName))
            else None)
      else None)"

definition invalidEgressMessage :: "string \<Rightarrow> string" where
  "invalidEgressMessage functionName =
     ''The function \"'' @ functionName @ ''\" has an invalid egress setting''
     @ '' Egress setting should be ALL_TRAFFIC, PRIVATE_RANGES_ONLY or VPC_CONNECTOR_EGRESS_SETTINGS_UNSPECIFIED''
     @ '' Please check the docs for more info.''"

definition validateVpcEgressProperty :: "jsobj \<Rightarrow> string \<Rightarrow> js_error option" where
  "validateVpcEgressProperty funcObject functionName =
     (if truthy (obj_prop funcObject ''egress'') \<and> typeof (obj_prop funcObject ''egress'') = ''string''
      then (if obj_prop funcObject ''egress'' \<notin> set (map JStr
                 [''VPC_CONNECTOR_EGRESS_SETTINGS_UNSPECIFIED'', ''PRIVATE_RANGES_ONLY'',
                  ''ALL_TRAFFIC''])
            then Some (Error (invalidEgressMessage functionName))
            else None)
      else None)"

definition invalidIngressMessage :: "string \<Rightarrow> string" where
  "invalidIngressMessage functionName =
     ''The function \"'' @ functionName @ ''\" has an invalid ingress setting''
     @ '' Ingress setting should be ALLOW_ALL, ALLOW_INTERNAL_ONLY, ALLOW_INTERNAL_AND_GCLB or INGRESS_SETTINGS_UNSPECIFIED''
     @ '' Please check the docs for more info.''"

definition validateVpcIngressProperty :: "jsobj \<Rightarrow> string \<Rightarrow> js_error option" where
  "validateVpcIngressProperty funcObject functionName =
     (if truthy (obj_prop funcObject ''ingress'') \<and> typeof (obj_prop funcObject ''ingress'') = ''string''
      then (if obj_prop funcObject ''ingress'' \<notin> set (map JStr
                 [''INGRESS_SETTINGS_UNSPECIFIED'', ''ALLOW_ALL'', ''ALLOW_INTERNAL_ONLY'',
                  ''ALLOW_INTERNAL_AND_GCLB''])
            then Some (Error (invalidIngressMessage functionName))
            else None)
      else None)"

section \<open>Compiling one function\<close>

definition getFunctionTemplate :: "jsobj \<Rightarrow> jsval \<Rightarrow> jsval \<Rightarrow> string \<Rightarrow> template" where
  "getFunctionTemplate funcObject projectName region sourceArchiveUrl =
     \<lparr> type = ''gcp-types/cloudfunctions-v1:projects.locations.functions'',
       name = obj_prop funcObject ''name'',
       properties =
         [(''parent'', JStr (''projects/'' @ js_to_string projectName
                             @ ''/locations/'' @ js_to_string region)),
          (''availableMemoryMb'', JNum 256),
          (''runtime'', JStr ''nodejs10''),
          (''timeout'', JStr ''60s''),
          (''entryPoint'', obj_prop funcObject ''handler''),
          (''function'', obj_prop funcObject ''name''),
          (''sourceArchiveUrl'', JStr sourceArchiveUrl)] \<rparr>"

text \<open>
  The statement \<open>if (cond) { body }\<close> on the properties object under construction:
  the condition and the body both see the object as it is at that point.
\<close>

definition js_when :: "(jsobj \<Rightarrow> bool) \<Rightarrow> (jsobj \<Rightarrow> jsobj) \<Rightarrow> jsobj \<Rightarrow> jsobj" where
  "js_when cond body props = (if cond props then body props else props)"

text \<open>
  Lines 36 to 84 of the loop body: the overlay of the declaration on the provider
  defaults, on the properties of the fresh template. None of these steps can throw.
\<close>

definition overlay :: "collaborators \<Rightarrow> jsobj \<Rightarrow> jsobj \<Rightarrow> jsobj \<Rightarrow> jsobj" where
  "overlay c prov funcObject props0 =
     (let p1 = AList.update ''serviceAccountEmail''
                 (js_or (lodash_get funcObject ''serviceAccountEmail'')
                    (js_or (lodash_get prov ''serviceAccountEmail'') JNull)) props0;
          p2 = AList.update ''availableMemoryMb''
                 (js_or (lodash_get funcObject ''memorySize'')
                    (js_or (lodash_get prov ''memorySize'') (JNum 256))) p1;
          p3 = AList.update ''runtime'' (getRuntime c funcObject) p2;
          p4 = AList.update ''timeout''
                 (js_or (lodash_get funcObject ''timeout'')
                    (js_or (lodash_get prov ''timeout'') (JStr ''60s''))) p3;
          p5 = AList.update ''environmentVariables'' (getConfiguredEnvironment c funcObject) p4;
          p6 = js_when (\<lambda>props. \<not> truthy (obj_prop props ''serviceAccountEmail''))
                 (AList.delete ''serviceAccountEmail'') p5;
          p7 = js_when (\<lambda>props. truthy (obj_prop funcObject ''vpc''))
                 (\<lambda>props. lodash_assign props
                    (JObj [(''vpcConnector'',
                            js_or (lodash_get funcObject ''vpc'') (lodash_get prov ''vpc''))])) p6;
          p8 = js_when (\<lambda>props. truthy (obj_prop funcObject ''egress''))
                 (\<lambda>props. lodash_assign props
                    (JObj [(''vpcConnectorEgressSettings'',
                            js_or (lodash_get funcObject ''egress'') (lodash_get prov ''egress''))])) p7;
          p9 = js_when (\<lambda>props. truthy (obj_prop funcObject ''ingress''))
                 (\<lambda>props. lodash_assign props
                    (JObj [(''ingressSettings'',
                            js_or (lodash_get funcObject ''ingress'') (lodash_get prov ''ingress''))])) p8;
          p10 = js_when (\<lambda>props. truthy (obj_prop funcObject ''maxInstances''))
                  (AList.update ''maxInstances'' (obj_prop funcObject ''maxInstances'')) p9;
          p11 = js_when (\<lambda>props. lodash_size (obj_prop props ''environmentVariables'') = 0)
                  (AList.delete ''environmentVariables'') p10
      in AList.update ''labels''
           (JObj (lodash_assign
                    (lodash_assign [] (js_or (lodash_get prov ''labels'') (JObj [])))
                    (js_or (lodash_get funcObject ''labels'') (JObj [])))) p11)"

text \<open>\<open>funcObject.events[0]\<close>\<close>

definition first_event :: "jsobj \<Rightarrow> js_error + jsval" where
  "first_event funcObject = js_get (obj_prop funcObject ''events'') ''0''"

text \<open>
  Lines 86 to 103: the trigger, from the first key of the first event. Reading a property
  of \<open>undefined\<close> or \<open>null\<close> throws.
\<close>

definition eventTrigger_of :: "jsval \<Rightarrow> js_error + jsval" where
  "eventTrigger_of event =
     (case js_get event ''eventType'' of
        Inl e \<Rightarrow> Inl e
      | Inr type' \<Rightarrow>
          (case js_get event ''path'' of
             Inl e \<Rightarrow> Inl e
           | Inr path \<Rightarrow>
               (case js_get event ''resource'' of
                  Inl e \<Rightarrow> Inl e
                | Inr resource \<Rightarrow>
                    Inr (JObj (AList.update ''resource'' resource
                           ((if truthy path then AList.update ''path'' path else id)
                              (AList.update ''eventType'' type' [])))))))"

text \<open>\<open>funcObject.events[0].k\<close>\<close>

definition first_event_prop :: "jsobj \<Rightarrow> string \<Rightarrow> js_error + jsval" where
  "first_event_prop funcObject k =
     (case first_event funcObject of Inl e \<Rightarrow> Inl e | Inr ev0 \<Rightarrow> js_get ev0 k)"

text \<open>\<open>Object.keys(funcObject.events[0])[0]\<close>\<close>

definition eventType_of :: "jsobj \<Rightarrow> js_error + string option" where
  "eventType_of funcObject =
     (case first_event funcObject of
        Inl e \<Rightarrow> Inl e
      | Inr ev0 \<Rightarrow>
          (case object_keys ev0 of Inl e \<Rightarrow> Inl e | Inr ks \<Rightarrow> Inr (first_key ks)))"

definition set_trigger :: "jsobj \<Rightarrow> jsobj \<Rightarrow> js_error + jsobj" where
  "set_trigger funcObject props =
     (case eventType_of funcObject of
        Inl e \<Rightarrow> Inl e
      | Inr eventType \<Rightarrow>
          (case (if eventType = Some ''http''
                 then (case first_event_prop funcObject ''http'' of
                         Inl e \<Rightarrow> Inl e
                       | Inr url \<Rightarrow>
                           Inr (AList.update ''httpsTrigger''
                                  (JObj (AList.update ''url'' url [])) props))
                 else Inr props) of
             Inl e \<Rightarrow> Inl e
           | Inr p1 \<Rightarrow>
               (if eventType = Some ''event''
                then (case first_event_prop funcObject ''event'' of
                        Inl e \<Rightarrow> Inl e
                      | Inr event \<Rightarrow>
                          (case eventTrigger_of event of
                             Inl e \<Rightarrow> Inl e
                           | Inr trig \<Rightarrow> Inr (AList.update ''eventTrigger'' trig p1)))
                else Inr p1)))"

definition sourceArchiveUrl_of :: "service \<Rightarrow> string" where
  "sourceArchiveUrl_of s =
     ''gs://'' @ js_to_string (obj_prop (provider s) ''deploymentBucketName'')
     @ ''/'' @ js_to_string (obj_prop (package s) ''artifactFilePath'')"

text \<open>
  The body of the \<open>forEach\<close> callback after the log line, up to the finished template:
  the thrown error, or the template that is pushed.
\<close>

definition compileFunction ::
  "collaborators \<Rightarrow> service \<Rightarrow> jsval \<Rightarrow> string \<Rightarrow> jsobj \<Rightarrow> js_error + template" where
  "compileFunction c s projectName functionName funcObject =
     (case validateHandlerProperty funcObject functionName of
        Some e \<Rightarrow> Inl e
      | None \<Rightarrow>
          (case validateEventsProperty c funcObject functionName of
             Some msg \<Rightarrow> Inl (Error msg)
           | None \<Rightarrow>
               (case validateVpcConnectorProperty funcObject functionName of
                  Some e \<Rightarrow> Inl e
                | None \<Rightarrow>
                    (let funcTemplate = getFunctionTemplate funcObject projectName
                           (obj_prop (provider s) ''region'') (sourceArchiveUrl_of s)
                     in case set_trigger funcObject
                               (overlay c (provider s) funcObject (properties funcTemplate)) of
                          Inl e \<Rightarrow> Inl e
                        | Inr props \<Rightarrow> Inr (funcTemplate\<lparr>properties := props\<rparr>)))))"

section \<open>The compilation pass\<close>

definition compilingMessage :: "string \<Rightarrow> string" where
  "compilingMessage functionName = ''Compiling function \"'' @ functionName @ ''\"...''"

text \<open>
  The \<open>forEach\<close> over the declared functions. A throw ends the pass: what was pushed and
  logged before stays, nothing more is pushed.
\<close>

fun forEach_function ::
  "collaborators \<Rightarrow> jsval \<Rightarrow> (string \<times> jsobj) list \<Rightarrow> service \<Rightarrow> js_error option \<times> service" where
  "forEach_function c projectName [] s = (None, s)"
| "forEach_function c projectName ((functionName, funcObject) # rest) s =
     (let s1 = s\<lparr>cli_log := cli_log s @ [compilingMessage functionName]\<rparr>
      in case compileFunction c s1 projectName functionName funcObject of
           Inl e \<Rightarrow> (Some e, s1)
         | Inr funcTemplate \<Rightarrow>
             forEach_function c projectName rest
               (s1\<lparr>resources := resources s1 @ [funcTemplate]\<rparr>))"

text \<open>\<open>artifactFilePath.split(path.sep).pop()\<close>: what follows the last separator.\<close>

definition split_pop :: "char \<Rightarrow> string \<Rightarrow> string" where
  "split_pop sep path = rev (takeWhile (\<lambda>ch. ch \<noteq> sep) (rev path))"

text \<open>
  Lines 13 to 18: the region is defaulted in the provider configuration and the artifact
  path is written to the package object, both in place.
\<close>

definition prepare :: "collaborators \<Rightarrow> service \<Rightarrow> string \<Rightarrow> service" where
  "prepare c s artifactFilePath =
     (let fileName = split_pop (path_sep c) artifactFilePath;
          s1 = s\<lparr>provider := AList.update ''region''
                    (js_or (obj_prop (provider s) ''region'') (JStr ''us-central1''))
                    (provider s)\<rparr>
      in s1\<lparr>package := AList.update ''artifactFilePath''
                (JStr (js_to_string (obj_prop (package s1) ''artifactDirectoryName'')
                       @ ''/'' @ fileName))
                (package s1)\<rparr>)"

text \<open>
  \<open>compileFunctions\<close>: the error thrown (None when the resolved promise is returned) and
  the service as the call leaves it. The artifact path has to be a string for \<open>split\<close>.
\<close>

definition compileFunctions :: "collaborators \<Rightarrow> service \<Rightarrow> js_error option \<times> service" where
  "compileFunctions c s =
     (case obj_prop (package s) ''artifact'' of
        JStr artifactFilePath \<Rightarrow>
          (let projectName = lodash_get (provider s) ''project'';
               s2 = prepare c s artifactFilePath
           in forEach_function c projectName (declared_functions s2) s2)
      | _ \<Rightarrow> (Some TypeError, s))"


section \<open>The events validator\<close>

text \<open>
  Modelled from the spec: \<open>validateEventsProperty\<close> of \<open>shared/validate\<close>, which
  \<open>compileFunctions\<close> calls on every declaration and which is not among the sources.
  The specification has the events of a declaration as a non-empty ordered sequence in
  which each event is a mapping with a single key, the event kind \<open>http\<close> or \<open>event\<close>,
  and has the validator fail with an invalid-events error when the list is empty or
  malformed. The wording of the message is not specified; the name of the error kind
  stands for it.
\<close>

definition event_well_formed :: "jsval \<Rightarrow> bool" where
  "event_well_formed ev =
     (case ev of
        JObj [(k, v)] \<Rightarrow> k = ''http'' \<or> k = ''event''
      | _ \<Rightarrow> False)"

definition spec_validateEventsProperty :: "jsobj \<Rightarrow> string \<Rightarrow> string option" where
  "spec_validateEventsProperty funcObject functionName =
     (case obj_prop funcObject ''events'' of
        JArr (ev # evs) \<Rightarrow>
          if list_all event_well_formed (ev # evs) then None else Some ''InvalidEventsError''
      | _ \<Rightarrow> Some ''InvalidEventsError'')"

section \<open>Example inputs\<close>

text \<open>
  Collaborators for the examples: the events validator above, a fixed runtime, the
  environment of the declaration alone.
\<close>

definition example_collaborators :: collaborators where
  "example_collaborators =
     \<lparr> validateEventsProperty = spec_validateEventsProperty,
       getRuntime = (\<lambda>funcObject. JStr ''nodejs10''),
       getConfiguredEnvironment =
         (\<lambda>funcObject. js_or (obj_prop funcObject ''environment'') (JObj [])),
       path_sep = CHR ''/'' \<rparr>"

definition example_http_function :: jsobj where
  "example_http_function =
     [(''name'', JStr ''svc-dev-first''),
      (''handler'', JStr ''first''),
      (''memorySize'', JNum 512),
      (''vpc'', JStr ''projects/p/locations/r/connectors/c''),
      (''egress'', JStr ''EVERYTHING''),
      (''ingress'', JStr ''ALLOW_NONE''),
      (''environment'', JObj [(''STAGE'', JStr ''dev'')]),
      (''events'', JArr [JObj [(''http'', JStr ''https://example.com'')]])]"

definition example_event_function :: jsobj where
  "example_event_function =
     [(''name'', JStr ''svc-dev-second''),
      (''handler'', JStr ''second''),
      (''events'',
       JArr [JObj [(''event'',
                    JObj [(''eventType'', JStr ''google.storage.object.finalize''),
                          (''resource'', JStr ''my-bucket'')])]])]"

definition example_empty_path_event :: jsobj where
  "example_empty_path_event =
     [(''eventType'', JStr ''providers/cloud.pubsub/eventTypes/topic.publish''),
      (''path'', JStr []),
      (''resource'', JStr ''projects/p/topics/t'')]"

definition example_empty_path_function :: jsobj where
  "example_empty_path_function =
     [(''name'', JStr ''svc-dev-third''),
      (''handler'', JStr ''third''),
      (''events'', JArr [JObj [(''event'', JObj example_empty_path_event)]])]"


definition example_empty_vpc_function :: jsobj where
  "example_empty_vpc_function =
     [(''name'', JStr ''svc-dev-fifth''),
      (''handler'', JStr ''fifth''),
      (''vpc'', JStr []),
      (''events'', JArr [JObj [(''http'', JStr ''https://example.com'')]])]"

definition example_bad_vpc_function :: jsobj where
  "example_bad_vpc_function =
     [(''name'', JStr ''svc-dev-sixth''),
      (''handler'', JStr ''sixth''),
      (''vpc'', JStr ''my-connector''),
      (''events'', JArr [JObj [(''http'', JStr ''https://example.com'')]])]"

definition example_falsy_function :: jsobj where
  "example_falsy_function =
     [(''name'', JStr ''svc-dev-seventh''),
      (''handler'', JStr ''seventh''),
      (''memorySize'', JNum 0),
      (''timeout'', JStr []),
      (''events'', JArr [JObj [(''http'', JStr ''https://example.com'')]])]"

definition example_no_handler_function :: jsobj where
  "example_no_handler_function =
     [(''name'', JStr ''svc-dev-eighth''),
      (''events'', JArr [JObj [(''http'', JStr ''https://example.com'')]])]"

definition example_bucket_resource :: template where
  "example_bucket_resource =
     \<lparr> type = ''storage.v1.bucket'',
       name = JStr ''sls-svc-dev-1'',
       properties = [(''location'', JStr ''us-central1'')] \<rparr>"

definition example_provider :: jsobj where
  "example_provider =
     [(''project'', JStr ''my-project''),
      (''deploymentBucketName'', JStr ''sls-svc-dev-1''),
      (''memorySize'', JNum 128),
      (''timeout'', JStr ''120s''),
      (''vpc'', JStr ''projects/p/locations/r/connectors/default''),
      (''egress'', JStr ''ALL_TRAFFIC''),
      (''ingress'', JStr ''ALLOW_ALL'')]"

definition example_service :: service where
  "example_service =
     \<lparr> provider = example_provider,
       package = [(''artifact'', JStr ''/work/.serverless/svc.zip''),
                  (''artifactDirectoryName'', JStr ''serverless/svc/dev/1'')],
       declared_functions =
         [(''first'', example_http_function),
          (''eighth'', example_no_handler_function),
          (''second'', example_event_function)],
       resources = [example_bucket_resource],
       cli_log = [] \<rparr>"

text \<open>The same service with nothing but the project in the provider configuration.\<close>

definition example_bare_service :: service where
  "example_bare_service = example_service\<lparr>provider := [(''project'', JStr ''my-project'')]\<rparr>"

text \<open>The same service with two declarations, both valid.\<close>

definition example_valid_service :: service where
  "example_valid_service =
     example_service\<lparr>declared_functions :=
       [(''first'', example_http_function), (''second'', example_event_function)]\<rparr>"


section \<open>Properties of the overlay\<close>

lemma map_of_lodash_assign_single:
  "map_of (lodash_assign p (JObj [(k, v)])) = (map_of p)(k \<mapsto> v)"
  by (simp add: lodash_assign_def update_conv')

lemma obj_prop_update:
  "obj_prop (AList.update k v p) k' = (if k' = k then v else obj_prop p k')"
  by (simp add: obj_prop_def update_conv')

lemma obj_prop_delete:
  "obj_prop (AList.delete k p) k' = (if k' = k then JUndefined else obj_prop p k')"
  by (simp add: obj_prop_def delete_conv')

lemma obj_prop_lodash_assign_single:
  "obj_prop (lodash_assign p (JObj [(k, v)])) k' = (if k' = k then v else obj_prop p k')"
  by (simp add: obj_prop_def map_of_lodash_assign_single)

lemma map_of_js_when:
  "map_of (js_when cond body p) k = (if cond p then map_of (body p) k else map_of p k)"
  by (simp add: js_when_def)

lemma obj_prop_js_when:
  "obj_prop (js_when cond body p) k = (if cond p then obj_prop (body p) k else obj_prop p k)"
  by (simp add: js_when_def)

lemma js_or_truthy: "truthy a \<Longrightarrow> js_or a b = a"
  by (simp add: js_or_def)

lemmas overlay_simps =
  overlay_def Let_def update_conv' delete_conv' map_of_lodash_assign_single
  map_of_js_when obj_prop_js_when obj_prop_update obj_prop_delete
  obj_prop_lodash_assign_single js_or_truthy lodash_get_def

lemma overlay_vpcConnector:
  "map_of (overlay c prov f p0) ''vpcConnector'' =
     (if truthy (obj_prop f ''vpc'') then Some (obj_prop f ''vpc'')
      else map_of p0 ''vpcConnector'')"
  by (simp add: overlay_simps)

lemma overlay_egress:
  "map_of (overlay c prov f p0) ''vpcConnectorEgressSettings'' =
     (if truthy (obj_prop f ''egress'') then Some (obj_prop f ''egress'')
      else map_of p0 ''vpcConnectorEgressSettings'')"
  by (simp add: overlay_simps)

lemma overlay_ingress:
  "map_of (overlay c prov f p0) ''ingressSettings'' =
     (if truthy (obj_prop f ''ingress'') then Some (obj_prop f ''ingress'')
      else map_of p0 ''ingressSettings'')"
  by (simp add: overlay_simps)

lemma overlay_availableMemoryMb:
  "map_of (overlay c prov f p0) ''availableMemoryMb'' =
     Some (js_or (obj_prop f ''memorySize'') (js_or (obj_prop prov ''memorySize'') (JNum 256)))"
  by (simp add: overlay_simps)

lemma overlay_timeout:
  "map_of (overlay c prov f p0) ''timeout'' =
     Some (js_or (obj_prop f ''timeout'') (js_or (obj_prop prov ''timeout'') (JStr ''60s'')))"
  by (simp add: overlay_simps)

lemma overlay_serviceAccountEmail:
  "map_of (overlay c prov f p0) ''serviceAccountEmail'' =
     (if truthy (js_or (obj_prop f ''serviceAccountEmail'')
                   (js_or (obj_prop prov ''serviceAccountEmail'') JNull))
      then Some (js_or (obj_prop f ''serviceAccountEmail'')
                   (js_or (obj_prop prov ''serviceAccountEmail'') JNull))
      else None)"
  by (simp add: overlay_simps)

lemma overlay_environmentVariables:
  "map_of (overlay c prov f p0) ''environmentVariables'' =
     (if lodash_size (getConfiguredEnvironment c f) = 0 then None
      else Some (getConfiguredEnvironment c f))"
  by (simp add: overlay_simps)

lemma overlay_triggers:
  "map_of (overlay c prov f p0) ''httpsTrigger'' = map_of p0 ''httpsTrigger''"
  "map_of (overlay c prov f p0) ''eventTrigger'' = map_of p0 ''eventTrigger''"
  by (simp_all add: overlay_simps)

lemma base_properties_absent:
  "map_of (properties (getFunctionTemplate f pn r u)) ''vpcConnector'' = None"
  "map_of (properties (getFunctionTemplate f pn r u)) ''vpcConnectorEgressSettings'' = None"
  "map_of (properties (getFunctionTemplate f pn r u)) ''ingressSettings'' = None"
  "map_of (properties (getFunctionTemplate f pn r u)) ''httpsTrigger'' = None"
  "map_of (properties (getFunctionTemplate f pn r u)) ''eventTrigger'' = None"
  by (simp_all add: getFunctionTemplate_def)

section \<open>Properties of the trigger resolution\<close>

lemma eventTrigger_of_Inr:
  "eventTrigger_of ev = Inr trig \<longleftrightarrow>
     (\<not> nullish ev \<and>
      trig = JObj ((''eventType'', obj_prop (own_entries ev) ''eventType'')
                   # (if truthy (obj_prop (own_entries ev) ''path'')
                      then [(''path'', obj_prop (own_entries ev) ''path'')] else [])
                   @ [(''resource'', obj_prop (own_entries ev) ''resource'')]))"
  by (auto simp: eventTrigger_of_def js_get_def)

lemma eventType_of_first_event_prop:
  "eventType_of f = Inr k \<Longrightarrow> \<exists>v. first_event_prop f key = Inr v"
  by (auto simp: eventType_of_def first_event_prop_def js_get_def object_keys_def
      split: sum.splits if_splits)

lemma set_trigger_cases:
  assumes "set_trigger f p = Inr p'"
  shows "\<exists>k. eventType_of f = Inr k \<and>
           (k = Some ''http'' \<longrightarrow>
              (\<exists>url. first_event_prop f ''http'' = Inr url \<and>
                 p' = AList.update ''httpsTrigger'' (JObj [(''url'', url)]) p)) \<and>
           (k = Some ''event'' \<longrightarrow>
              (\<exists>ev trig. first_event_prop f ''event'' = Inr ev \<and>
                 eventTrigger_of ev = Inr trig \<and>
                 p' = AList.update ''eventTrigger'' trig p)) \<and>
           (k \<noteq> Some ''http'' \<and> k \<noteq> Some ''event'' \<longrightarrow> p' = p)"
  using assms
  by (auto simp: set_trigger_def split: sum.splits if_splits)

lemma set_trigger_succeeds:
  assumes "eventType_of f = Inr k"
    and "k = Some ''event'' \<Longrightarrow> \<exists>ev. first_event_prop f ''event'' = Inr ev \<and> \<not> nullish ev"
  shows "\<exists>p'. set_trigger f p = Inr p'"
proof (cases "k = Some ''event''")
  case True
  with assms(2) obtain ev where ev: "first_event_prop f ''event'' = Inr ev" and "\<not> nullish ev"
    by blast
  then obtain trig where "eventTrigger_of ev = Inr trig"
    by (auto simp: eventTrigger_of_Inr)
  with ev True assms(1) show ?thesis
    by (simp add: set_trigger_def)
next
  case False
  obtain url where "first_event_prop f ''http'' = Inr url"
    using eventType_of_first_event_prop [OF assms(1)] by blast
  with False assms(1) show ?thesis
    by (simp add: set_trigger_def)
qed

lemma set_trigger_other:
  assumes "set_trigger f p = Inr p'" and "key \<noteq> ''httpsTrigger''" and "key \<noteq> ''eventTrigger''"
  shows "map_of p' key = map_of p key"
  using set_trigger_cases [OF assms(1)] assms(2,3)
  by (cases "eventType_of f") (auto simp: update_conv')

section \<open>Properties of one compiled function\<close>

lemma compileFunction_Inr:
  "compileFunction c s pn fn f = Inr t \<longleftrightarrow>
     truthy (obj_prop f ''handler'') \<and>
     validateEventsProperty c f fn = None \<and>
     validateVpcConnectorProperty f fn = None \<and>
     (\<exists>p. set_trigger f (overlay c (provider s) f
              (properties (getFunctionTemplate f pn (obj_prop (provider s) ''region'')
                 (sourceArchiveUrl_of s)))) = Inr p \<and>
          t = (getFunctionTemplate f pn (obj_prop (provider s) ''region'')
                 (sourceArchiveUrl_of s))\<lparr>properties := p\<rparr>)"
  by (auto simp: compileFunction_def validateHandlerProperty_def Let_def
      split: option.splits sum.splits)

lemma compiled_property:
  assumes "compileFunction c s pn fn f = Inr t"
    and "key \<noteq> ''httpsTrigger''" and "key \<noteq> ''eventTrigger''"
  shows "map_of (properties t) key =
         map_of (overlay c (provider s) f
           (properties (getFunctionTemplate f pn (obj_prop (provider s) ''region'')
              (sourceArchiveUrl_of s)))) key"
proof -
  from assms(1) obtain p where
    p: "set_trigger f (overlay c (provider s) f
           (properties (getFunctionTemplate f pn (obj_prop (provider s) ''region'')
              (sourceArchiveUrl_of s)))) = Inr p"
    and t: "properties t = p"
    by (auto simp: compileFunction_Inr)
  from set_trigger_other [OF p assms(2,3)] t show ?thesis by simp
qed

lemma compileFunction_succeeds:
  assumes "truthy (obj_prop f ''handler'')"
    and "validateEventsProperty c f fn = None"
    and "validateVpcConnectorProperty f fn = None"
    and "eventType_of f = Inr k"
    and "k = Some ''event'' \<Longrightarrow> \<exists>ev. first_event_prop f ''event'' = Inr ev \<and> \<not> nullish ev"
  shows "\<exists>t. compileFunction c s pn fn f = Inr t"
proof -
  from set_trigger_succeeds [OF assms(4,5)]
  obtain p where "set_trigger f (overlay c (provider s) f
           (properties (getFunctionTemplate f pn (obj_prop (provider s) ''region'')
              (sourceArchiveUrl_of s)))) = Inr p"
    by blast
  with assms(1,2,3) show ?thesis
    by (simp add: compileFunction_Inr)
qed

lemma compiled_triggers:
  assumes "compileFunction c s pn fn f = Inr t"
  shows "\<exists>k. eventType_of f = Inr k \<and>
           (k = Some ''http'' \<longrightarrow>
              (\<exists>url. first_event_prop f ''http'' = Inr url \<and>
                 map_of (properties t) ''httpsTrigger'' = Some (JObj [(''url'', url)]) \<and>
                 map_of (properties t) ''eventTrigger'' = None)) \<and>
           (k = Some ''event'' \<longrightarrow>
              (\<exists>ev trig. first_event_prop f ''event'' = Inr ev \<and>
                 eventTrigger_of ev = Inr trig \<and>
                 map_of (properties t) ''eventTrigger'' = Some trig \<and>
                 map_of (properties t) ''httpsTrigger'' = None)) \<and>
           (k \<noteq> Some ''http'' \<and> k \<noteq> Some ''event'' \<longrightarrow>
              map_of (properties t) ''httpsTrigger'' = None \<and>
              map_of (properties t) ''eventTrigger'' = None)"
proof -
  let ?p0 = "overlay c (provider s) f
           (properties (getFunctionTemplate f pn (obj_prop (provider s) ''region'')
              (sourceArchiveUrl_of s)))"
  from assms obtain p where p: "set_trigger f ?p0 = Inr p" and t: "properties t = p"
    by (auto simp: compileFunction_Inr)
  have h: "map_of ?p0 ''httpsTrigger'' = None" and e: "map_of ?p0 ''eventTrigger'' = None"
    by (simp_all add: overlay_triggers base_properties_absent)
  from set_trigger_cases [OF p] obtain k where k: "eventType_of f = Inr k"
    and http: "k = Some ''http'' \<Longrightarrow>
              \<exists>url. first_event_prop f ''http'' = Inr url \<and>
                 p = AList.update ''httpsTrigger'' (JObj [(''url'', url)]) ?p0"
    and event: "k = Some ''event'' \<Longrightarrow>
              \<exists>ev trig. first_event_prop f ''event'' = Inr ev \<and>
                 eventTrigger_of ev = Inr trig \<and>
                 p = AList.update ''eventTrigger'' trig ?p0"
    and other: "k \<noteq> Some ''http'' \<Longrightarrow> k \<noteq> Some ''event'' \<Longrightarrow> p = ?p0"
    by blast
  have 1: "k = Some ''http'' \<longrightarrow>
              (\<exists>url. first_event_prop f ''http'' = Inr url \<and>
                 map_of (properties t) ''httpsTrigger'' = Some (JObj [(''url'', url)]) \<and>
                 map_of (properties t) ''eventTrigger'' = None)"
  proof
    assume "k = Some ''http''"
    from http [OF this] obtain url where "first_event_prop f ''http'' = Inr url"
      and "p = AList.update ''httpsTrigger'' (JObj [(''url'', url)]) ?p0" by blast
    with e t show "\<exists>url. first_event_prop f ''http'' = Inr url \<and>
                 map_of (properties t) ''httpsTrigger'' = Some (JObj [(''url'', url)]) \<and>
                 map_of (properties t) ''eventTrigger'' = None"
      by (simp add: update_conv')
  qed
  have 2: "k = Some ''event'' \<longrightarrow>
              (\<exists>ev trig. first_event_prop f ''event'' = Inr ev \<and>
                 eventTrigger_of ev = Inr trig \<and>
                 map_of (properties t) ''eventTrigger'' = Some trig \<and>
                 map_of (properties t) ''httpsTrigger'' = None)"
  proof
    assume "k = Some ''event''"
    from event [OF this] obtain ev trig where "first_event_prop f ''event'' = Inr ev"
      and "eventTrigger_of ev = Inr trig"
      and "p = AList.update ''eventTrigger'' trig ?p0" by blast
    with h t show "\<exists>ev trig. first_event_prop f ''event'' = Inr ev \<and>
                 eventTrigger_of ev = Inr trig \<and>
                 map_of (properties t) ''eventTrigger'' = Some trig \<and>
                 map_of (properties t) ''httpsTrigger'' = None"
      by (simp add: update_conv')
  qed
  have 3: "k \<noteq> Some ''http'' \<and> k \<noteq> Some ''event'' \<longrightarrow>
              map_of (properties t) ''httpsTrigger'' = None \<and>
              map_of (properties t) ''eventTrigger'' = None"
    using other h e t by simp
  from k 1 2 3 show ?thesis by blast
qed

text \<open>A result that is not an error is the template it carries.\<close>

lemma not_isl_projr: "\<not> isl r \<Longrightarrow> r = Inr (projr r)"
  by (cases r) simp_all

section \<open>The connector name pattern as a search\<close>

text \<open>
  The test by three successive searches finds exactly the strings that the regular
  expression describes: those that split into anything, the first literal, anything, the
  second literal, anything, the third literal, anything, each literal up to the case of
  its letters.
\<close>

lemma starts_with_ci_iff:
  "starts_with_ci lit s \<longleftrightarrow>
     (\<exists>m r. s = m @ r \<and> map canonicalize m = map canonicalize lit)"
proof (induction lit s rule: starts_with_ci.induct)
  case (1 s)
  then show ?case by simp
next
  case (2 p ps)
  then show ?case by simp
next
  case (3 p ps c cs)
  show ?case
  proof
    assume "starts_with_ci (p # ps) (c # cs)"
    then have pc: "canonicalize p = canonicalize c" and "starts_with_ci ps cs" by simp_all
    with 3 obtain m r where "cs = m @ r" and "map canonicalize m = map canonicalize ps"
      by blast
    with pc have "c # cs = (c # m) @ r \<and> map canonicalize (c # m) = map canonicalize (p # ps)"
      by simp
    then show "\<exists>m r. c # cs = m @ r \<and> map canonicalize m = map canonicalize (p # ps)"
      by blast
  next
    assume "\<exists>m r. c # cs = m @ r \<and> map canonicalize m = map canonicalize (p # ps)"
    then obtain m r where s: "c # cs = m @ r"
      and m: "map canonicalize m = map canonicalize (p # ps)" by blast
    from m obtain m' where m': "m = c # m'" "canonicalize c = canonicalize p"
      "map canonicalize m' = map canonicalize ps"
      using s by (cases m) auto
    with s have "cs = m' @ r" by simp
    with m'(3) 3 have "starts_with_ci ps cs" by blast
    with m'(2) show "starts_with_ci (p # ps) (c # cs)" by simp
  qed
qed

lemma skip_literal_sound:
  "skip_literal lit s = Some r \<Longrightarrow>
     \<exists>a m. s = a @ m @ r \<and> map canonicalize m = map canonicalize lit"
proof (induction s)
  case Nil
  then show ?case by (cases lit) (auto split: if_splits)
next
  case (Cons c cs)
  show ?case
  proof (cases "starts_with_ci lit (c # cs)")
    case True
    then obtain m r' where s: "c # cs = m @ r'"
      and m: "map canonicalize m = map canonicalize lit"
      by (auto simp: starts_with_ci_iff)
    from m have "length m = length lit" by (rule map_eq_imp_length_eq)
    with s have "drop (length lit) (c # cs) = r'" by simp
    with True Cons.prems have "r = r'" by simp
    with s m have "c # cs = [] @ m @ r \<and> map canonicalize m = map canonicalize lit" by simp
    then show ?thesis by blast
  next
    case False
    with Cons.prems have "skip_literal lit cs = Some r" by simp
    with Cons.IH obtain a m where "cs = a @ m @ r"
      and "map canonicalize m = map canonicalize lit" by blast
    then have "c # cs = (c # a) @ m @ r \<and> map canonicalize m = map canonicalize lit" by simp
    then show ?thesis by blast
  qed
qed

lemma skip_literal_complete:
  "s = a @ m @ r' \<Longrightarrow> map canonicalize m = map canonicalize lit \<Longrightarrow>
     \<exists>b. skip_literal lit s = Some (b @ r')"
proof (induction s arbitrary: a)
  case Nil
  then show ?case by simp
next
  case (Cons c cs)
  show ?case
  proof (cases "starts_with_ci lit (c # cs)")
    case True
    from Cons.prems(2) have len: "length m = length lit" by (rule map_eq_imp_length_eq)
    have "drop (length lit) (c # cs) = drop (length lit) (a @ m) @ r'"
      using Cons.prems(1) len by simp
    with True show ?thesis by simp
  next
    case False
    have "a \<noteq> []"
    proof
      assume "a = []"
      with Cons.prems have "starts_with_ci lit (c # cs)"
        by (auto simp: starts_with_ci_iff)
      with False show False by simp
    qed
    then obtain a' where "a = c # a'" and "cs = a' @ m @ r'"
      using Cons.prems(1) by (cases a) auto
    with Cons.IH [of a'] Cons.prems(2) obtain b where "skip_literal lit cs = Some (b @ r')"
      by blast
    with False show ?thesis by simp
  qed
qed

lemma vpcNamePattern_test_iff:
  "vpcNamePattern_test s \<longleftrightarrow>
     (\<exists>a p b l c k d. s = a @ p @ b @ l @ c @ k @ d \<and>
        map canonicalize p = map canonicalize ''projects/'' \<and>
        map canonicalize l = map canonicalize ''/locations/'' \<and>
        map canonicalize k = map canonicalize ''/connectors/'')"
proof
  assume "vpcNamePattern_test s"
  then obtain r1 r2 r3 where 1: "skip_literal ''projects/'' s = Some r1"
    and 2: "skip_literal ''/locations/'' r1 = Some r2"
    and 3: "skip_literal ''/connectors/'' r2 = Some r3"
    by (auto simp: vpcNamePattern_test_def split: option.splits)
  from skip_literal_sound [OF 1] obtain a p where s: "s = a @ p @ r1"
    and p: "map canonicalize p = map canonicalize ''projects/''" by blast
  from skip_literal_sound [OF 2] obtain b l where r1: "r1 = b @ l @ r2"
    and l: "map canonicalize l = map canonicalize ''/locations/''" by blast
  from skip_literal_sound [OF 3] obtain c k where r2: "r2 = c @ k @ r3"
    and k: "map canonicalize k = map canonicalize ''/connectors/''" by blast
  from s r1 r2 have "s = a @ p @ b @ l @ c @ k @ r3" by simp
  with p l k show "\<exists>a p b l c k d. s = a @ p @ b @ l @ c @ k @ d \<and>
        map canonicalize p = map canonicalize ''projects/'' \<and>
        map canonicalize l = map canonicalize ''/locations/'' \<and>
        map canonicalize k = map canonicalize ''/connectors/''"
    by blast
next
  assume "\<exists>a p b l c k d. s = a @ p @ b @ l @ c @ k @ d \<and>
        map canonicalize p = map canonicalize ''projects/'' \<and>
        map canonicalize l = map canonicalize ''/locations/'' \<and>
        map canonicalize k = map canonicalize ''/connectors/''"
  then obtain a p b l c k d where s: "s = a @ p @ b @ l @ c @ k @ d"
    and p: "map canonicalize p = map canonicalize ''projects/''"
    and l: "map canonicalize l = map canonicalize ''/locations/''"
    and k: "map canonicalize k = map canonicalize ''/connectors/''"
    by blast
  from skip_literal_complete [OF s p] obtain b1
    where 1: "skip_literal ''projects/'' s = Some (b1 @ b @ l @ c @ k @ d)" by blast
  have "b1 @ b @ l @ c @ k @ d = (b1 @ b) @ l @ (c @ k @ d)" by simp
  from skip_literal_complete [OF this l] obtain b2
    where 2: "skip_literal ''/locations/'' (b1 @ b @ l @ c @ k @ d) = Some (b2 @ c @ k @ d)"
    by blast
  have "b2 @ c @ k @ d = (b2 @ c) @ k @ d" by simp
  from skip_literal_complete [OF this k] obtain b3
    where 3: "skip_literal ''/connectors/'' (b2 @ c @ k @ d) = Some (b3 @ d)"
    by blast
  from 1 2 3 show "vpcNamePattern_test s"
    by (simp add: vpcNamePattern_test_def)
qed

section \<open>Claims about one compiled template\<close>

text \<open>
  Claim C4. In the template of a compiled declaration, each of the keys
  \<open>vpcConnector\<close>, \<open>vpcConnectorEgressSettings\<close> and \<open>ingressSettings\<close> is present if
  and only if the declaration's own \<open>vpc\<close>, \<open>egress\<close> or \<open>ingress\<close> is truthy. The
  provider configuration does not occur in the condition: a provider default alone never
  makes a key appear.
\<close>

theorem network_keys_iff_declared:
  assumes "compileFunction c s pn fn f = Inr t"
  shows "(map_of (properties t) ''vpcConnector'' \<noteq> None \<longleftrightarrow> truthy (obj_prop f ''vpc'')) \<and>
         (map_of (properties t) ''vpcConnectorEgressSettings'' \<noteq> None
            \<longleftrightarrow> truthy (obj_prop f ''egress'')) \<and>
         (map_of (properties t) ''ingressSettings'' \<noteq> None
            \<longleftrightarrow> truthy (obj_prop f ''ingress''))"
proof -
  have "map_of (properties t) ''vpcConnector'' \<noteq> None \<longleftrightarrow> truthy (obj_prop f ''vpc'')"
    by (simp add: compiled_property [OF assms] overlay_vpcConnector base_properties_absent)
  moreover
  have "map_of (properties t) ''vpcConnectorEgressSettings'' \<noteq> None
          \<longleftrightarrow> truthy (obj_prop f ''egress'')"
    by (simp add: compiled_property [OF assms] overlay_egress base_properties_absent)
  moreover
  have "map_of (properties t) ''ingressSettings'' \<noteq> None \<longleftrightarrow> truthy (obj_prop f ''ingress'')"
    by (simp add: compiled_property [OF assms] overlay_ingress base_properties_absent)
  ultimately show ?thesis by blast
qed

text \<open>
  The provider of the example sets \<open>vpc\<close>, \<open>egress\<close> and \<open>ingress\<close>; the declaration
  sets none of them, and none of the three keys is emitted.
\<close>

theorem network_keys_iff_declared_witness:
  "\<not> isl (compileFunction example_collaborators example_service (JStr ''my-project'')
            ''second'' example_event_function) \<and>
   truthy (obj_prop (provider example_service) ''vpc'') \<and>
   map_of (properties (projr (compileFunction example_collaborators example_service
     (JStr ''my-project'') ''second'' example_event_function))) ''vpcConnector'' = None \<and>
   map_of (properties (projr (compileFunction example_collaborators example_service
     (JStr ''my-project'') ''second'' example_event_function))) ''vpcConnectorEgressSettings'' = None \<and>
   map_of (properties (projr (compileFunction example_collaborators example_service
     (JStr ''my-project'') ''second'' example_event_function))) ''ingressSettings'' = None"
proof -
  let ?r = "compileFunction example_collaborators example_service (JStr ''my-project'')
              ''second'' example_event_function"
  have ok: "\<not> isl ?r" by code_simp
  have prov: "truthy (obj_prop (provider example_service) ''vpc'')" by code_simp
  have decl: "\<not> truthy (obj_prop example_event_function ''vpc'')"
    "\<not> truthy (obj_prop example_event_function ''egress'')"
    "\<not> truthy (obj_prop example_event_function ''ingress'')"
    by code_simp+
  from network_keys_iff_declared [OF not_isl_projr [OF ok]] decl ok prov
  show ?thesis by simp
qed

text \<open>
  Claim C6. In the template of a compiled declaration, \<open>availableMemoryMb\<close> is the
  declaration's \<open>memorySize\<close>, else the provider's \<open>memorySize\<close>, else 256, where "else"
  is JavaScript's \<open>||\<close>.
\<close>

theorem availableMemoryMb_precedence:
  assumes "compileFunction c s pn fn f = Inr t"
  shows "map_of (properties t) ''availableMemoryMb'' =
         Some (if truthy (obj_prop f ''memorySize'') then obj_prop f ''memorySize''
               else if truthy (obj_prop (provider s) ''memorySize'')
                    then obj_prop (provider s) ''memorySize''
                    else JNum 256)"
proof -
  have "map_of (properties t) ''availableMemoryMb'' =
     Some (js_or (obj_prop f ''memorySize'')
             (js_or (obj_prop (provider s) ''memorySize'') (JNum 256)))"
    by (simp add: compiled_property [OF assms] overlay_availableMemoryMb)
  then show ?thesis
    by (simp add: js_or_def)
qed

text \<open>
  Declared 512 over a provider default of 128 gives 512; with neither set the result
  is 256.
\<close>

theorem availableMemoryMb_precedence_witness:
  "obj_prop example_http_function ''memorySize'' = JNum 512 \<and>
   obj_prop (provider example_service) ''memorySize'' = JNum 128 \<and>
   map_of (properties (projr (compileFunction example_collaborators example_service
     (JStr ''my-project'') ''first'' example_http_function))) ''availableMemoryMb''
     = Some (JNum 512) \<and>
   obj_prop example_event_function ''memorySize'' = JUndefined \<and>
   obj_prop (provider example_bare_service) ''memorySize'' = JUndefined \<and>
   map_of (properties (projr (compileFunction example_collaborators example_bare_service
     (JStr ''my-project'') ''second'' example_event_function))) ''availableMemoryMb''
     = Some (JNum 256)"
proof -
  let ?r1 = "compileFunction example_collaborators example_service (JStr ''my-project'')
               ''first'' example_http_function"
  let ?r2 = "compileFunction example_collaborators example_bare_service (JStr ''my-project'')
               ''second'' example_event_function"
  have ok1: "\<not> isl ?r1" by code_simp
  have ok2: "\<not> isl ?r2" by code_simp
  have v: "obj_prop example_http_function ''memorySize'' = JNum 512"
    "obj_prop (provider example_service) ''memorySize'' = JNum 128"
    "obj_prop example_event_function ''memorySize'' = JUndefined"
    "obj_prop (provider example_bare_service) ''memorySize'' = JUndefined"
    by code_simp+
  from availableMemoryMb_precedence [OF not_isl_projr [OF ok1]]
       availableMemoryMb_precedence [OF not_isl_projr [OF ok2]] v
  show ?thesis by simp
qed

text \<open>
  Claim C7. In the template of a compiled declaration, \<open>serviceAccountEmail\<close> is present
  only with a truthy value (never \<open>null\<close>, \<open>undefined\<close> or the empty string) and is
  absent when neither the declaration nor the provider has one; \<open>environmentVariables\<close>
  is present only with the resolved environment of non-zero size (never \<open>null\<close>,
  \<open>undefined\<close> or an empty object) and is absent when the resolved environment is empty.
\<close>

theorem optional_keys_omitted_when_empty:
  assumes "compileFunction c s pn fn f = Inr t"
  shows "(\<forall>v. map_of (properties t) ''serviceAccountEmail'' = Some v \<longrightarrow>
            truthy v \<and> v \<noteq> JNull \<and> v \<noteq> JUndefined \<and> v \<noteq> JStr []) \<and>
         (\<not> truthy (obj_prop f ''serviceAccountEmail'') \<and>
          \<not> truthy (obj_prop (provider s) ''serviceAccountEmail'')
            \<longrightarrow> map_of (properties t) ''serviceAccountEmail'' = None) \<and>
         (\<forall>v. map_of (properties t) ''environmentVariables'' = Some v \<longrightarrow>
            v = getConfiguredEnvironment c f \<and> lodash_size v \<noteq> 0 \<and>
            v \<noteq> JNull \<and> v \<noteq> JUndefined \<and> v \<noteq> JObj []) \<and>
         (lodash_size (getConfiguredEnvironment c f) = 0
            \<longrightarrow> map_of (properties t) ''environmentVariables'' = None)"
proof -
  have sae: "map_of (properties t) ''serviceAccountEmail'' =
     (if truthy (js_or (obj_prop f ''serviceAccountEmail'')
                (js_or (obj_prop (provider s) ''serviceAccountEmail'') JNull))
      then Some (js_or (obj_prop f ''serviceAccountEmail'')
                (js_or (obj_prop (provider s) ''serviceAccountEmail'') JNull)) else None)"
    by (simp add: compiled_property [OF assms] overlay_serviceAccountEmail)
  have env: "map_of (properties t) ''environmentVariables'' =
     (if lodash_size (getConfiguredEnvironment c f) = 0 then None
      else Some (getConfiguredEnvironment c f))"
    by (simp add: compiled_property [OF assms] overlay_environmentVariables)
  have 1: "\<forall>v. map_of (properties t) ''serviceAccountEmail'' = Some v \<longrightarrow>
            truthy v \<and> v \<noteq> JNull \<and> v \<noteq> JUndefined \<and> v \<noteq> JStr []"
    unfolding sae by (auto split: if_splits)
  have 2: "\<not> truthy (obj_prop f ''serviceAccountEmail'') \<and>
          \<not> truthy (obj_prop (provider s) ''serviceAccountEmail'')
            \<longrightarrow> map_of (properties t) ''serviceAccountEmail'' = None"
    unfolding sae by (simp add: js_or_def)
  have 3: "\<forall>v. map_of (properties t) ''environmentVariables'' = Some v \<longrightarrow>
            v = getConfiguredEnvironment c f \<and> lodash_size v \<noteq> 0 \<and>
            v \<noteq> JNull \<and> v \<noteq> JUndefined \<and> v \<noteq> JObj []"
    unfolding env by (auto split: if_splits)
  have 4: "lodash_size (getConfiguredEnvironment c f) = 0
            \<longrightarrow> map_of (properties t) ''environmentVariables'' = None"
    unfolding env by simp
  from 1 2 3 4 show ?thesis by blast
qed

text \<open>
  The second example declaration has no service account and no environment, and neither
  has its provider: both keys are absent. The first one has an environment, which is
  emitted.
\<close>

theorem optional_keys_omitted_when_empty_witness:
  "map_of (properties (projr (compileFunction example_collaborators example_service
     (JStr ''my-project'') ''second'' example_event_function))) ''serviceAccountEmail'' = None \<and>
   map_of (properties (projr (compileFunction example_collaborators example_service
     (JStr ''my-project'') ''second'' example_event_function))) ''environmentVariables'' = None \<and>
   map_of (properties (projr (compileFunction example_collaborators example_service
     (JStr ''my-project'') ''first'' example_http_function))) ''environmentVariables''
     = Some (JObj [(''STAGE'', JStr ''dev'')])"
proof -
  let ?r1 = "compileFunction example_collaborators example_service (JStr ''my-project'')
               ''first'' example_http_function"
  let ?r2 = "compileFunction example_collaborators example_service (JStr ''my-project'')
               ''second'' example_event_function"
  have ok1: "\<not> isl ?r1" by code_simp
  have ok2: "\<not> isl ?r2" by code_simp
  have v: "\<not> truthy (obj_prop example_event_function ''serviceAccountEmail'')"
    "\<not> truthy (obj_prop (provider example_service) ''serviceAccountEmail'')"
    "lodash_size (getConfiguredEnvironment example_collaborators example_event_function) = 0"
    by code_simp+
  have e: "map_of (properties (projr ?r1)) ''environmentVariables''
             = Some (JObj [(''STAGE'', JStr ''dev'')])"
    by code_simp
  have "getConfiguredEnvironment example_collaborators example_http_function
          = JObj [(''STAGE'', JStr ''dev'')]"
    using optional_keys_omitted_when_empty [OF not_isl_projr [OF ok1]] e by simp
  with optional_keys_omitted_when_empty [OF not_isl_projr [OF ok2]] v e
  show ?thesis by simp
qed

text \<open>
  Claim C10. A declared \<open>memorySize\<close> or \<open>timeout\<close> that is falsy (0, the empty string)
  counts as absent: the template has the provider's value, or 256 and \<open>60s\<close> when the
  provider's value is falsy too, and never the declared value.
\<close>

theorem falsy_declared_value_is_absent:
  assumes "compileFunction c s pn fn f = Inr t"
  shows "(\<not> truthy (obj_prop f ''memorySize'') \<longrightarrow>
            map_of (properties t) ''availableMemoryMb'' =
              Some (if truthy (obj_prop (provider s) ''memorySize'')
                    then obj_prop (provider s) ''memorySize'' else JNum 256) \<and>
            map_of (properties t) ''availableMemoryMb'' \<noteq> Some (obj_prop f ''memorySize'')) \<and>
         (\<not> truthy (obj_prop f ''timeout'') \<longrightarrow>
            map_of (properties t) ''timeout'' =
              Some (if truthy (obj_prop (provider s) ''timeout'')
                    then obj_prop (provider s) ''timeout'' else JStr ''60s'') \<and>
            map_of (properties t) ''timeout'' \<noteq> Some (obj_prop f ''timeout''))"
proof -
  have m: "map_of (properties t) ''availableMemoryMb'' =
     Some (js_or (obj_prop f ''memorySize'')
             (js_or (obj_prop (provider s) ''memorySize'') (JNum 256)))"
    by (simp add: compiled_property [OF assms] overlay_availableMemoryMb)
  have tm: "map_of (properties t) ''timeout'' =
     Some (js_or (obj_prop f ''timeout'')
             (js_or (obj_prop (provider s) ''timeout'') (JStr ''60s'')))"
    by (simp add: compiled_property [OF assms] overlay_timeout)
  have 1: "\<not> truthy (obj_prop f ''memorySize'') \<longrightarrow>
            map_of (properties t) ''availableMemoryMb'' =
              Some (if truthy (obj_prop (provider s) ''memorySize'')
                    then obj_prop (provider s) ''memorySize'' else JNum 256) \<and>
            map_of (properties t) ''availableMemoryMb'' \<noteq> Some (obj_prop f ''memorySize'')"
  proof
    assume n: "\<not> truthy (obj_prop f ''memorySize'')"
    let ?v = "if truthy (obj_prop (provider s) ''memorySize'')
              then obj_prop (provider s) ''memorySize'' else JNum 256"
    have tv: "truthy ?v" by simp
    have "?v \<noteq> obj_prop f ''memorySize''"
    proof
      assume e: "?v = obj_prop f ''memorySize''"
      from tv have "truthy (obj_prop f ''memorySize'')" unfolding e .
      with n show False ..
    qed
    moreover from m n have "map_of (properties t) ''availableMemoryMb'' = Some ?v"
      by (simp add: js_or_def)
    ultimately show "map_of (properties t) ''availableMemoryMb'' = Some ?v \<and>
            map_of (properties t) ''availableMemoryMb'' \<noteq> Some (obj_prop f ''memorySize'')"
      by simp
  qed
  have 2: "\<not> truthy (obj_prop f ''timeout'') \<longrightarrow>
            map_of (properties t) ''timeout'' =
              Some (if truthy (obj_prop (provider s) ''timeout'')
                    then obj_prop (provider s) ''timeout'' else JStr ''60s'') \<and>
            map_of (properties t) ''timeout'' \<noteq> Some (obj_prop f ''timeout'')"
  proof
    assume n: "\<not> truthy (obj_prop f ''timeout'')"
    let ?v = "if truthy (obj_prop (provider s) ''timeout'')
              then obj_prop (provider s) ''timeout'' else JStr ''60s''"
    have tv: "truthy ?v" by simp
    have "?v \<noteq> obj_prop f ''timeout''"
    proof
      assume e: "?v = obj_prop f ''timeout''"
      from tv have "truthy (obj_prop f ''timeout'')" unfolding e .
      with n show False ..
    qed
    moreover from tm n have "map_of (properties t) ''timeout'' = Some ?v"
      by (simp add: js_or_def)
    ultimately show "map_of (properties t) ''timeout'' = Some ?v \<and>
            map_of (properties t) ''timeout'' \<noteq> Some (obj_prop f ''timeout'')"
      by simp
  qed
  from 1 2 show ?thesis by blast
qed

text \<open>
  Declared \<open>memorySize: 0\<close> and \<open>timeout: ""\<close>: over a provider with 128 and \<open>120s\<close>
  the template has those, over a provider with neither it has 256 and \<open>60s\<close>.
\<close>

theorem falsy_declared_value_is_absent_witness:
  "obj_prop example_falsy_function ''memorySize'' = JNum 0 \<and>
   obj_prop example_falsy_function ''timeout'' = JStr [] \<and>
   map_of (properties (projr (compileFunction example_collaborators example_service
     (JStr ''my-project'') ''seventh'' example_falsy_function))) ''availableMemoryMb''
     = Some (JNum 128) \<and>
   map_of (properties (projr (compileFunction example_collaborators example_service
     (JStr ''my-project'') ''seventh'' example_falsy_function))) ''timeout''
     = Some (JStr ''120s'') \<and>
   map_of (properties (projr (compileFunction example_collaborators example_bare_service
     (JStr ''my-project'') ''seventh'' example_falsy_function))) ''availableMemoryMb''
     = Some (JNum 256) \<and>
   map_of (properties (projr (compileFunction example_collaborators example_bare_service
     (JStr ''my-project'') ''seventh'' example_falsy_function))) ''timeout''
     = Some (JStr ''60s'')"
proof -
  let ?r1 = "compileFunction example_collaborators example_service (JStr ''my-project'')
               ''seventh'' example_falsy_function"
  let ?r2 = "compileFunction example_collaborators example_bare_service (JStr ''my-project'')
               ''seventh'' example_falsy_function"
  have ok1: "\<not> isl ?r1" by code_simp
  have ok2: "\<not> isl ?r2" by code_simp
  have v: "obj_prop example_falsy_function ''memorySize'' = JNum 0"
    "obj_prop example_falsy_function ''timeout'' = JStr []"
    "obj_prop (provider example_service) ''memorySize'' = JNum 128"
    "obj_prop (provider example_service) ''timeout'' = JStr ''120s''"
    "obj_prop (provider example_bare_service) ''memorySize'' = JUndefined"
    "obj_prop (provider example_bare_service) ''timeout'' = JUndefined"
    by code_simp+
  from falsy_declared_value_is_absent [OF not_isl_projr [OF ok1]]
       falsy_declared_value_is_absent [OF not_isl_projr [OF ok2]] v
  show ?thesis by simp
qed

section \<open>Claims about the trigger\<close>








text \<open>
  Claim C8, as stated: with a first event of key \<open>event\<close>, the \<open>eventTrigger\<close> of the
  template has a \<open>path\<close> key if and only if the input event has one. The code copies the
  path under \<open>if (path)\<close>: an input event whose \<open>path\<close> is the empty string has the key,
  the emitted trigger has not.
\<close>

theorem path_key_iff_present_counterexample:
  "first_event_prop example_empty_path_function ''event'' = Inr (JObj example_empty_path_event) \<and>
   map_of example_empty_path_event ''path'' = Some (JStr []) \<and>
   map_of (properties (projr (compileFunction example_collaborators example_service
     (JStr ''my-project'') ''third'' example_empty_path_function))) ''eventTrigger''
     = Some (JObj [(''eventType'', JStr ''providers/cloud.pubsub/eventTypes/topic.publish''),
                   (''resource'', JStr ''projects/p/topics/t'')])"
  by code_simp

text \<open>
  Claim C8, amended. In the template of a compiled declaration: when the first key of the
  first event is \<open>http\<close>, with value \<open>v\<close>, \<open>httpsTrigger\<close> is \<open>{url: v}\<close> and there is no
  \<open>eventTrigger\<close>; when it is \<open>event\<close>, \<open>eventTrigger\<close> has the \<open>eventType\<close> and the
  \<open>resource\<close> of that event, a \<open>path\<close> key if and only if the event's \<open>path\<close> is truthy
  (then with that path), no other key, and there is no \<open>httpsTrigger\<close>.
\<close>

theorem trigger_mapping:
  assumes "compileFunction c s pn fn f = Inr t"
  shows "(eventType_of f = Inr (Some ''http'') \<longrightarrow>
            (\<exists>v. first_event_prop f ''http'' = Inr v \<and>
               map_of (properties t) ''httpsTrigger'' = Some (JObj [(''url'', v)]) \<and>
               map_of (properties t) ''eventTrigger'' = None)) \<and>
         (eventType_of f = Inr (Some ''event'') \<longrightarrow>
            (\<exists>ev trig. first_event_prop f ''event'' = Inr ev \<and>
               map_of (properties t) ''eventTrigger'' = Some (JObj trig) \<and>
               map_of trig ''eventType'' = Some (obj_prop (own_entries ev) ''eventType'') \<and>
               map_of trig ''resource'' = Some (obj_prop (own_entries ev) ''resource'') \<and>
               map_of trig ''path'' =
                 (if truthy (obj_prop (own_entries ev) ''path'')
                  then Some (obj_prop (own_entries ev) ''path'') else None) \<and>
               fst ` set trig \<subseteq> {''eventType'', ''path'', ''resource''} \<and>
               map_of (properties t) ''httpsTrigger'' = None))"
proof -
  from compiled_triggers [OF assms] obtain k where k: "eventType_of f = Inr k"
    and http: "k = Some ''http'' \<Longrightarrow>
              \<exists>url. first_event_prop f ''http'' = Inr url \<and>
                 map_of (properties t) ''httpsTrigger'' = Some (JObj [(''url'', url)]) \<and>
                 map_of (properties t) ''eventTrigger'' = None"
    and event: "k = Some ''event'' \<Longrightarrow>
              \<exists>ev trig. first_event_prop f ''event'' = Inr ev \<and>
                 eventTrigger_of ev = Inr trig \<and>
                 map_of (properties t) ''eventTrigger'' = Some trig \<and>
                 map_of (properties t) ''httpsTrigger'' = None"
    by blast
  have 1: "eventType_of f = Inr (Some ''http'') \<longrightarrow>
            (\<exists>v. first_event_prop f ''http'' = Inr v \<and>
               map_of (properties t) ''httpsTrigger'' = Some (JObj [(''url'', v)]) \<and>
               map_of (properties t) ''eventTrigger'' = None)"
    using k http by auto
  have 2: "eventType_of f = Inr (Some ''event'') \<longrightarrow>
            (\<exists>ev trig. first_event_prop f ''event'' = Inr ev \<and>
               map_of (properties t) ''eventTrigger'' = Some (JObj trig) \<and>
               map_of trig ''eventType'' = Some (obj_prop (own_entries ev) ''eventType'') \<and>
               map_of trig ''resource'' = Some (obj_prop (own_entries ev) ''resource'') \<and>
               map_of trig ''path'' =
                 (if truthy (obj_prop (own_entries ev) ''path'')
                  then Some (obj_prop (own_entries ev) ''path'') else None) \<and>
               fst ` set trig \<subseteq> {''eventType'', ''path'', ''resource''} \<and>
               map_of (properties t) ''httpsTrigger'' = None)"
  proof
    assume "eventType_of f = Inr (Some ''event'')"
    with k have "k = Some ''event''" by simp
    from event [OF this] obtain ev trig0 where ev: "first_event_prop f ''event'' = Inr ev"
      and trig0: "eventTrigger_of ev = Inr trig0"
      and e: "map_of (properties t) ''eventTrigger'' = Some trig0"
      and h: "map_of (properties t) ''httpsTrigger'' = None"
      by blast
    define trig where "trig = (''eventType'', obj_prop (own_entries ev) ''eventType'')
                   # (if truthy (obj_prop (own_entries ev) ''path'')
                      then [(''path'', obj_prop (own_entries ev) ''path'')] else [])
                   @ [(''resource'', obj_prop (own_entries ev) ''resource'')]"
    from trig0 have t0: "trig0 = JObj trig"
      by (simp add: eventTrigger_of_Inr trig_def)
    have "map_of trig ''eventType'' = Some (obj_prop (own_entries ev) ''eventType'')"
      and "map_of trig ''resource'' = Some (obj_prop (own_entries ev) ''resource'')"
      and "map_of trig ''path'' =
                 (if truthy (obj_prop (own_entries ev) ''path'')
                  then Some (obj_prop (own_entries ev) ''path'') else None)"
      by (simp_all add: trig_def)
    moreover have "fst ` set trig \<subseteq> {''eventType'', ''path'', ''resource''}"
      by (auto simp: trig_def)
    ultimately
    show "\<exists>ev trig. first_event_prop f ''event'' = Inr ev \<and>
               map_of (properties t) ''eventTrigger'' = Some (JObj trig) \<and>
               map_of trig ''eventType'' = Some (obj_prop (own_entries ev) ''eventType'') \<and>
               map_of trig ''resource'' = Some (obj_prop (own_entries ev) ''resource'') \<and>
               map_of trig ''path'' =
                 (if truthy (obj_prop (own_entries ev) ''path'')
                  then Some (obj_prop (own_entries ev) ''path'') else None) \<and>
               fst ` set trig \<subseteq> {''eventType'', ''path'', ''resource''} \<and>
               map_of (properties t) ''httpsTrigger'' = None"
      using ev e h t0 by blast
  qed
  from 1 2 show ?thesis by blast
qed

text \<open>
  The two examples of the specification: \<open>{http: "https://example.com"}\<close>, and an event
  with \<open>eventType\<close> and \<open>resource\<close> and no \<open>path\<close>.
\<close>

theorem trigger_mapping_witness:
  "eventType_of example_http_function = Inr (Some ''http'') \<and>
   map_of (properties (projr (compileFunction example_collaborators example_service
     (JStr ''my-project'') ''first'' example_http_function))) ''httpsTrigger''
     = Some (JObj [(''url'', JStr ''https://example.com'')]) \<and>
   map_of (properties (projr (compileFunction example_collaborators example_service
     (JStr ''my-project'') ''first'' example_http_function))) ''eventTrigger'' = None \<and>
   eventType_of example_event_function = Inr (Some ''event'') \<and>
   map_of (properties (projr (compileFunction example_collaborators example_service
     (JStr ''my-project'') ''second'' example_event_function))) ''eventTrigger''
     = Some (JObj [(''eventType'', JStr ''google.storage.object.finalize''),
                   (''resource'', JStr ''my-bucket'')]) \<and>
   map_of (properties (projr (compileFunction example_collaborators example_service
     (JStr ''my-project'') ''second'' example_event_function))) ''httpsTrigger'' = None"
proof -
  let ?r1 = "compileFunction example_collaborators example_service (JStr ''my-project'')
               ''first'' example_http_function"
  let ?r2 = "compileFunction example_collaborators example_service (JStr ''my-project'')
               ''second'' example_event_function"
  have ok1: "\<not> isl ?r1" by code_simp
  have ok2: "\<not> isl ?r2" by code_simp
  have k1: "eventType_of example_http_function = Inr (Some ''http'')" by code_simp
  have k2: "eventType_of example_event_function = Inr (Some ''event'')" by code_simp
  have v1: "first_event_prop example_http_function ''http'' = Inr (JStr ''https://example.com'')"
    by code_simp
  have e2: "map_of (properties (projr ?r2)) ''eventTrigger''
     = Some (JObj [(''eventType'', JStr ''google.storage.object.finalize''),
                   (''resource'', JStr ''my-bucket'')])"
    by code_simp
  from trigger_mapping [OF not_isl_projr [OF ok1]] k1 v1
  have "map_of (properties (projr ?r1)) ''httpsTrigger''
          = Some (JObj [(''url'', JStr ''https://example.com'')]) \<and>
        map_of (properties (projr ?r1)) ''eventTrigger'' = None"
    by auto
  moreover
  from trigger_mapping [OF not_isl_projr [OF ok2]] k2
  have "map_of (properties (projr ?r2)) ''httpsTrigger'' = None"
    by auto
  ultimately show ?thesis using k1 k2 e2 by simp
qed

section \<open>Claims about the validators\<close>

lemma validateVpcConnectorProperty_string:
  "obj_prop f ''vpc'' = JStr v \<Longrightarrow>
     validateVpcConnectorProperty f fn =
       (if v \<noteq> [] \<and> \<not> vpcNamePattern_test v then Some (Error (invalidVpcMessage fn))
        else None)"
  by (simp add: validateVpcConnectorProperty_def)

text \<open>
  Claim C3, as stated: every declaration whose \<open>vpc\<close> is a string that does not match
  the pattern fails with the invalid-connector-name error. The validator tests
  \<open>funcObject.vpc && typeof funcObject.vpc === 'string'\<close>: the empty string does not
  match the pattern, is not checked, and the declaration compiles.
\<close>

theorem vpc_string_rejected_counterexample:
  "obj_prop example_empty_vpc_function ''vpc'' = JStr [] \<and>
   \<not> vpcNamePattern_test [] \<and>
   \<not> isl (compileFunction example_collaborators example_service (JStr ''my-project'')
            ''fifth'' example_empty_vpc_function)"
  by code_simp

text \<open>
  Claim C3, amended. For a declaration that passes the handler and the events validation
  (they run first) and whose \<open>vpc\<close> is a non-empty string: if the pattern is not found in
  the string, compilation fails with the invalid-connector-name error; if it is found
  (as in \<open>projects/p/locations/r/connectors/c\<close>) and the trigger can be resolved,
  compilation succeeds and the template has \<open>vpcConnector\<close> with exactly that string.
\<close>

theorem vpc_connector_name_validated:
  assumes "truthy (obj_prop f ''handler'')"
    and "validateEventsProperty c f fn = None"
    and "obj_prop f ''vpc'' = JStr v"
    and "v \<noteq> []"
  shows "(\<not> vpcNamePattern_test v \<longrightarrow>
            compileFunction c s pn fn f = Inl (Error (invalidVpcMessage fn))) \<and>
         (vpcNamePattern_test v \<longrightarrow> eventType_of f = Inr k \<longrightarrow>
            (k = Some ''event'' \<longrightarrow>
               (\<exists>ev. first_event_prop f ''event'' = Inr ev \<and> \<not> nullish ev)) \<longrightarrow>
            (\<exists>t. compileFunction c s pn fn f = Inr t \<and>
                 map_of (properties t) ''vpcConnector'' = Some (JStr v)))"
proof -
  have 1: "\<not> vpcNamePattern_test v \<longrightarrow>
            compileFunction c s pn fn f = Inl (Error (invalidVpcMessage fn))"
    using assms
    by (simp add: compileFunction_def validateHandlerProperty_def
        validateVpcConnectorProperty_string)
  have 2: "vpcNamePattern_test v \<longrightarrow> eventType_of f = Inr k \<longrightarrow>
            (k = Some ''event'' \<longrightarrow>
               (\<exists>ev. first_event_prop f ''event'' = Inr ev \<and> \<not> nullish ev)) \<longrightarrow>
            (\<exists>t. compileFunction c s pn fn f = Inr t \<and>
                 map_of (properties t) ''vpcConnector'' = Some (JStr v))"
  proof (intro impI)
    assume m: "vpcNamePattern_test v" and k: "eventType_of f = Inr k"
      and ev: "k = Some ''event'' \<longrightarrow>
               (\<exists>ev. first_event_prop f ''event'' = Inr ev \<and> \<not> nullish ev)"
    from m assms(3) have vpc: "validateVpcConnectorProperty f fn = None"
      by (simp add: validateVpcConnectorProperty_string)
    from ev have "k = Some ''event'' \<Longrightarrow>
               \<exists>ev. first_event_prop f ''event'' = Inr ev \<and> \<not> nullish ev"
      by blast
    from compileFunction_succeeds [OF assms(1,2) vpc k this]
    obtain t where t: "compileFunction c s pn fn f = Inr t" by blast
    have "map_of (properties t) ''vpcConnector'' = Some (JStr v)"
      using assms(3,4)
      by (simp add: compiled_property [OF t] overlay_vpcConnector)
    with t show "\<exists>t. compileFunction c s pn fn f = Inr t \<and>
                 map_of (properties t) ''vpcConnector'' = Some (JStr v)"
      by blast
  qed
  from 1 2 show ?thesis by blast
qed

text \<open>
  \<open>my-connector\<close> is rejected; \<open>projects/p/locations/r/connectors/c\<close> is accepted and
  emitted as it is.
\<close>

theorem vpc_connector_name_validated_witness:
  "compileFunction example_collaborators example_service (JStr ''my-project'')
     ''sixth'' example_bad_vpc_function = Inl (Error (invalidVpcMessage ''sixth'')) \<and>
   (\<exists>t. compileFunction example_collaborators example_service (JStr ''my-project'')
          ''first'' example_http_function = Inr t \<and>
        map_of (properties t) ''vpcConnector''
          = Some (JStr ''projects/p/locations/r/connectors/c''))"
proof -
  have bad: "truthy (obj_prop example_bad_vpc_function ''handler'')"
    "validateEventsProperty example_collaborators example_bad_vpc_function ''sixth'' = None"
    "obj_prop example_bad_vpc_function ''vpc'' = JStr ''my-connector''"
    "''my-connector'' \<noteq> []"
    "\<not> vpcNamePattern_test ''my-connector''"
    by code_simp+
  have good: "truthy (obj_prop example_http_function ''handler'')"
    "validateEventsProperty example_collaborators example_http_function ''first'' = None"
    "obj_prop example_http_function ''vpc'' = JStr ''projects/p/locations/r/connectors/c''"
    "''projects/p/locations/r/connectors/c'' \<noteq> []"
    "vpcNamePattern_test ''projects/p/locations/r/connectors/c''"
    "eventType_of example_http_function = Inr (Some ''http'')"
    by code_simp+
  from vpc_connector_name_validated [OF bad(1,2,3,4), where s = example_service
         and pn = "JStr ''my-project''"]
       bad(5)
  have "compileFunction example_collaborators example_service (JStr ''my-project'')
     ''sixth'' example_bad_vpc_function = Inl (Error (invalidVpcMessage ''sixth''))"
    by blast
  moreover
  from vpc_connector_name_validated [OF good(1,2,3,4), where k = "Some ''http''"
         and s = example_service and pn = "JStr ''my-project''"] good(5,6)
  have "\<exists>t. compileFunction example_collaborators example_service (JStr ''my-project'')
          ''first'' example_http_function = Inr t \<and>
        map_of (properties t) ''vpcConnector''
          = Some (JStr ''projects/p/locations/r/connectors/c'')"
    by simp
  ultimately show ?thesis by blast
qed

text \<open>
  Claim C5. The compilation does not call the egress and ingress validators. For a
  declaration that passes the three validations that are called and whose trigger can be
  resolved, compilation succeeds; and where \<open>validateVpcEgressProperty\<close> (or
  \<open>validateVpcIngressProperty\<close>) would have thrown, that is for a truthy string outside
  the list of valid values, the template has the declared value unchanged under
  \<open>vpcConnectorEgressSettings\<close> (or \<open>ingressSettings\<close>).
\<close>

theorem egress_ingress_not_validated:
  assumes "truthy (obj_prop f ''handler'')"
    and "validateEventsProperty c f fn = None"
    and "validateVpcConnectorProperty f fn = None"
    and "eventType_of f = Inr k"
    and "k = Some ''event'' \<Longrightarrow> \<exists>ev. first_event_prop f ''event'' = Inr ev \<and> \<not> nullish ev"
  shows "\<exists>t. compileFunction c s pn fn f = Inr t \<and>
           (validateVpcEgressProperty f fn \<noteq> None \<longrightarrow>
              map_of (properties t) ''vpcConnectorEgressSettings'' = Some (obj_prop f ''egress'')) \<and>
           (validateVpcIngressProperty f fn \<noteq> None \<longrightarrow>
              map_of (properties t) ''ingressSettings'' = Some (obj_prop f ''ingress''))"
proof -
  from compileFunction_succeeds [OF assms]
  obtain t where t: "compileFunction c s pn fn f = Inr t" by blast
  have e: "validateVpcEgressProperty f fn \<noteq> None \<longrightarrow>
              map_of (properties t) ''vpcConnectorEgressSettings'' = Some (obj_prop f ''egress'')"
  proof
    assume "validateVpcEgressProperty f fn \<noteq> None"
    then have "truthy (obj_prop f ''egress'')"
      by (auto simp: validateVpcEgressProperty_def split: if_splits)
    then show "map_of (properties t) ''vpcConnectorEgressSettings'' = Some (obj_prop f ''egress'')"
      by (simp add: compiled_property [OF t] overlay_egress)
  qed
  have i: "validateVpcIngressProperty f fn \<noteq> None \<longrightarrow>
              map_of (properties t) ''ingressSettings'' = Some (obj_prop f ''ingress'')"
  proof
    assume "validateVpcIngressProperty f fn \<noteq> None"
    then have "truthy (obj_prop f ''ingress'')"
      by (auto simp: validateVpcIngressProperty_def split: if_splits)
    then show "map_of (properties t) ''ingressSettings'' = Some (obj_prop f ''ingress'')"
      by (simp add: compiled_property [OF t] overlay_ingress)
  qed
  from t e i show ?thesis by blast
qed

text \<open>
  The first example declares \<open>egress: EVERYTHING\<close> and \<open>ingress: ALLOW_NONE\<close>, which
  both validators reject, and compiles with both values in the template.
\<close>

theorem egress_ingress_not_validated_witness:
  "validateVpcEgressProperty example_http_function ''first''
     = Some (Error (invalidEgressMessage ''first'')) \<and>
   validateVpcIngressProperty example_http_function ''first''
     = Some (Error (invalidIngressMessage ''first'')) \<and>
   (\<exists>t. compileFunction example_collaborators example_service (JStr ''my-project'')
          ''first'' example_http_function = Inr t \<and>
        map_of (properties t) ''vpcConnectorEgressSettings'' = Some (JStr ''EVERYTHING'') \<and>
        map_of (properties t) ''ingressSettings'' = Some (JStr ''ALLOW_NONE''))"
proof -
  have h: "truthy (obj_prop example_http_function ''handler'')"
    "validateEventsProperty example_collaborators example_http_function ''first'' = None"
    "validateVpcConnectorProperty example_http_function ''first'' = None"
    "eventType_of example_http_function = Inr (Some ''http'')"
    by code_simp+
  have v: "validateVpcEgressProperty example_http_function ''first''
             = Some (Error (invalidEgressMessage ''first''))"
    "validateVpcIngressProperty example_http_function ''first''
             = Some (Error (invalidIngressMessage ''first''))"
    "obj_prop example_http_function ''egress'' = JStr ''EVERYTHING''"
    "obj_prop example_http_function ''ingress'' = JStr ''ALLOW_NONE''"
    by code_simp+
  have "Some ''http'' = Some ''event'' \<Longrightarrow>
          \<exists>ev. first_event_prop example_http_function ''event'' = Inr ev \<and> \<not> nullish ev"
    by simp
  from egress_ingress_not_validated [OF h this, where s = example_service
         and pn = "JStr ''my-project''"] v
  show ?thesis by simp
qed

section \<open>Claims about the whole pass\<close>

text \<open>
  Compiling one function reads the provider configuration and the package object, not
  the resources pushed or the lines logged so far.
\<close>

lemma sourceArchiveUrl_of_unchanged:
  "sourceArchiveUrl_of (s\<lparr>cli_log := l\<rparr>) = sourceArchiveUrl_of s"
  "sourceArchiveUrl_of (s\<lparr>resources := r\<rparr>) = sourceArchiveUrl_of s"
  by (simp_all add: sourceArchiveUrl_of_def)

lemma compileFunction_cli_log [simp]:
  "compileFunction c (s\<lparr>cli_log := l\<rparr>) pn fn f = compileFunction c s pn fn f"
  by (simp add: compileFunction_def sourceArchiveUrl_of_unchanged split: option.splits)

lemma compileFunction_resources [simp]:
  "compileFunction c (s\<lparr>resources := r\<rparr>) pn fn f = compileFunction c s pn fn f"
  by (simp add: compileFunction_def sourceArchiveUrl_of_unchanged split: option.splits)

lemma forEach_function_valid_prefix:
  assumes "\<forall>d\<in>set ds. \<not> isl (compileFunction c s pn (fst d) (snd d))"
  shows "forEach_function c pn (ds @ rest) s =
         forEach_function c pn rest
           (s\<lparr>cli_log := cli_log s @ map (\<lambda>d. compilingMessage (fst d)) ds,
              resources := resources s @
                map (\<lambda>d. projr (compileFunction c s pn (fst d) (snd d))) ds\<rparr>)"
  using assms
proof (induction ds arbitrary: s)
  case Nil
  then show ?case by simp
next
  case (Cons d ds)
  obtain fn f where d: "d = (fn, f)" by (cases d)
  from Cons.prems d have "\<not> isl (compileFunction c s pn fn f)" by simp
  then obtain t where t: "compileFunction c s pn fn f = Inr t"
    by (cases "compileFunction c s pn fn f") simp_all
  let ?s2 = "s\<lparr>cli_log := cli_log s @ [compilingMessage fn], resources := resources s @ [t]\<rparr>"
  have step: "forEach_function c pn ((d # ds) @ rest) s = forEach_function c pn (ds @ rest) ?s2"
    using d t by (simp add: Let_def)
  have "\<forall>d\<in>set ds. \<not> isl (compileFunction c ?s2 pn (fst d) (snd d))"
    using Cons.prems by simp
  from Cons.IH [OF this] step d t show ?case by simp
qed

lemma prepare_fields:
  "declared_functions (prepare c s a) = declared_functions s"
  "resources (prepare c s a) = resources s"
  "cli_log (prepare c s a) = cli_log s"
  by (simp_all add: prepare_def Let_def)

lemma compileFunctions_string_artifact:
  "obj_prop (package s) ''artifact'' = JStr a \<Longrightarrow>
     compileFunctions c s =
       forEach_function c (obj_prop (provider s) ''project'') (declared_functions s)
         (prepare c s a)"
  by (simp add: compileFunctions_def Let_def lodash_get_def prepare_fields)

text \<open>
  Claim C2. When the handler of a declaration is absent or empty (or falsy in any other
  way), compiling it fails with the missing-handler error. In a pass where the
  declarations before it compile, the pass fails with that error, and the resources are
  the prior ones followed by the templates of the declarations before it: no template for
  the declaration itself or for a later one is appended.
\<close>

theorem missing_handler_aborts:
  assumes "obj_prop (package s) ''artifact'' = JStr a"
    and "declared_functions s = before @ (fn, f) # after"
    and "\<forall>d\<in>set before. \<not> isl (compileFunction c (prepare c s a)
            (obj_prop (provider s) ''project'') (fst d) (snd d))"
    and "\<not> truthy (obj_prop f ''handler'')"
  shows "compileFunction c s' pn fn f = Inl (Error (missingHandlerMessage fn)) \<and>
         fst (compileFunctions c s) = Some (Error (missingHandlerMessage fn)) \<and>
         resources (snd (compileFunctions c s)) =
           resources s @ map (\<lambda>d. projr (compileFunction c (prepare c s a)
             (obj_prop (provider s) ''project'') (fst d) (snd d))) before"
proof -
  have one: "\<And>s' pn. compileFunction c s' pn fn f = Inl (Error (missingHandlerMessage fn))"
    using assms(4) by (simp add: compileFunction_def validateHandlerProperty_def)
  let ?pn = "obj_prop (provider s) ''project''"
  let ?s2 = "prepare c s a"
  have "compileFunctions c s = forEach_function c ?pn (before @ (fn, f) # after) ?s2"
    using assms(1,2) by (simp add: compileFunctions_string_artifact)
  also have "\<dots> = forEach_function c ?pn ((fn, f) # after)
      (?s2\<lparr>cli_log := cli_log ?s2 @ map (\<lambda>d. compilingMessage (fst d)) before,
           resources := resources ?s2 @
             map (\<lambda>d. projr (compileFunction c ?s2 ?pn (fst d) (snd d))) before\<rparr>)"
    by (rule forEach_function_valid_prefix [OF assms(3)])
  finally have "compileFunctions c s =
      (Some (Error (missingHandlerMessage fn)),
       ?s2\<lparr>cli_log := cli_log ?s2 @ map (\<lambda>d. compilingMessage (fst d)) before
                @ [compilingMessage fn],
           resources := resources ?s2 @
             map (\<lambda>d. projr (compileFunction c ?s2 ?pn (fst d) (snd d))) before\<rparr>)"
    by (simp add: one Let_def)
  then show ?thesis using one by (simp add: prepare_fields)
qed

text \<open>
  The example service declares a valid function, one without handler and another valid
  one: the pass fails at the second, with the bucket and the first template as resources.
\<close>

theorem missing_handler_aborts_witness:
  "fst (compileFunctions example_collaborators example_service)
     = Some (Error (missingHandlerMessage ''eighth'')) \<and>
   resources (snd (compileFunctions example_collaborators example_service))
     = [example_bucket_resource,
        projr (compileFunction example_collaborators
                 (prepare example_collaborators example_service ''/work/.serverless/svc.zip'')
                 (obj_prop (provider example_service) ''project'')
                 ''first'' example_http_function)]"
proof -
  have a: "obj_prop (package example_service) ''artifact'' = JStr ''/work/.serverless/svc.zip''"
    by code_simp
  have ds: "declared_functions example_service =
              [(''first'', example_http_function)]
              @ (''eighth'', example_no_handler_function)
              # [(''second'', example_event_function)]"
    by (simp add: example_service_def)
  have ok: "\<not> isl (compileFunction example_collaborators
                 (prepare example_collaborators example_service ''/work/.serverless/svc.zip'')
                 (obj_prop (provider example_service) ''project'')
                 ''first'' example_http_function)"
    by code_simp
  then have pre: "\<forall>d\<in>set [(''first'', example_http_function)].
            \<not> isl (compileFunction example_collaborators
                 (prepare example_collaborators example_service ''/work/.serverless/svc.zip'')
                 (obj_prop (provider example_service) ''project'') (fst d) (snd d))"
    by simp
  have h: "\<not> truthy (obj_prop example_no_handler_function ''handler'')"
    by code_simp
  have r: "resources example_service = [example_bucket_resource]"
    by (simp add: example_service_def)
  from missing_handler_aborts [OF a ds pre h] r show ?thesis by simp
qed

text \<open>
  Claim C9. In a pass over N declarations that all compile, the resources afterwards are
  the prior resources, unchanged and in place, followed by N templates, the i-th of them
  the template of the i-th declaration.
\<close>

theorem templates_appended_in_order:
  assumes "obj_prop (package s) ''artifact'' = JStr a"
    and "\<forall>d\<in>set (declared_functions s). \<not> isl (compileFunction c (prepare c s a)
            (obj_prop (provider s) ''project'') (fst d) (snd d))"
  shows "fst (compileFunctions c s) = None \<and>
         resources (snd (compileFunctions c s)) =
           resources s @ map (\<lambda>d. projr (compileFunction c (prepare c s a)
             (obj_prop (provider s) ''project'') (fst d) (snd d))) (declared_functions s) \<and>
         length (resources (snd (compileFunctions c s))) =
           length (resources s) + length (declared_functions s) \<and>
         take (length (resources s)) (resources (snd (compileFunctions c s))) = resources s \<and>
         (\<forall>i < length (declared_functions s).
            Inr (resources (snd (compileFunctions c s)) ! (length (resources s) + i)) =
              compileFunction c (prepare c s a) (obj_prop (provider s) ''project'')
                (fst (declared_functions s ! i)) (snd (declared_functions s ! i)))"
proof -
  let ?pn = "obj_prop (provider s) ''project''"
  let ?s2 = "prepare c s a"
  let ?ts = "map (\<lambda>d. projr (compileFunction c ?s2 ?pn (fst d) (snd d))) (declared_functions s)"
  have "compileFunctions c s = forEach_function c ?pn (declared_functions s @ []) ?s2"
    using assms(1) by (simp add: compileFunctions_string_artifact)
  also have "\<dots> = forEach_function c ?pn []
      (?s2\<lparr>cli_log := cli_log ?s2 @ map (\<lambda>d. compilingMessage (fst d)) (declared_functions s),
           resources := resources ?s2 @ ?ts\<rparr>)"
    by (rule forEach_function_valid_prefix [OF assms(2)])
  finally have r: "fst (compileFunctions c s) = None"
    "resources (snd (compileFunctions c s)) = resources s @ ?ts"
    by (simp_all add: prepare_fields)
  have nth: "\<forall>i < length (declared_functions s).
            Inr (resources (snd (compileFunctions c s)) ! (length (resources s) + i)) =
              compileFunction c ?s2 ?pn
                (fst (declared_functions s ! i)) (snd (declared_functions s ! i))"
  proof (intro allI impI)
    fix i assume i: "i < length (declared_functions s)"
    then have "declared_functions s ! i \<in> set (declared_functions s)" by simp
    with assms(2)
    have "\<not> isl (compileFunction c ?s2 ?pn
                (fst (declared_functions s ! i)) (snd (declared_functions s ! i)))"
      by blast
    from not_isl_projr [OF this] i
    show "Inr (resources (snd (compileFunctions c s)) ! (length (resources s) + i)) =
              compileFunction c ?s2 ?pn
                (fst (declared_functions s ! i)) (snd (declared_functions s ! i))"
      by (simp add: r(2))
  qed
  from r nth show ?thesis by simp
qed

text \<open>
  The example service with its two valid declarations: the bucket stays first, the two
  templates follow in the order of the declarations.
\<close>

theorem templates_appended_in_order_witness:
  "fst (compileFunctions example_collaborators example_valid_service) = None \<and>
   resources (snd (compileFunctions example_collaborators example_valid_service))
     = [example_bucket_resource,
        projr (compileFunction example_collaborators
                 (prepare example_collaborators example_valid_service
                    ''/work/.serverless/svc.zip'')
                 (obj_prop (provider example_valid_service) ''project'')
                 ''first'' example_http_function),
        projr (compileFunction example_collaborators
                 (prepare example_collaborators example_valid_service
                    ''/work/.serverless/svc.zip'')
                 (obj_prop (provider example_valid_service) ''project'')
                 ''second'' example_event_function)]"
proof -
  have a: "obj_prop (package example_valid_service) ''artifact''
             = JStr ''/work/.serverless/svc.zip''"
    by code_simp
  have ds: "declared_functions example_valid_service =
              [(''first'', example_http_function), (''second'', example_event_function)]"
    by (simp add: example_valid_service_def)
  have ok: "\<not> isl (compileFunction example_collaborators
                 (prepare example_collaborators example_valid_service
                    ''/work/.serverless/svc.zip'')
                 (obj_prop (provider example_valid_service) ''project'')
                 ''first'' example_http_function)"
    "\<not> isl (compileFunction example_collaborators
                 (prepare example_collaborators example_valid_service
                    ''/work/.serverless/svc.zip'')
                 (obj_prop (provider example_valid_service) ''project'')
                 ''second'' example_event_function)"
    by code_simp+
  then have pre: "\<forall>d\<in>set (declared_functions example_valid_service).
            \<not> isl (compileFunction example_collaborators
                 (prepare example_collaborators example_valid_service
                    ''/work/.serverless/svc.zip'')
                 (obj_prop (provider example_valid_service) ''project'') (fst d) (snd d))"
    by (simp add: ds)
  have r: "resources example_valid_service = [example_bucket_resource]"
    by (simp add: example_valid_service_def example_service_def)
  from templates_appended_in_order [OF a pre] r ds show ?thesis by simp
qed

end
